theory Spec2Isabelle
  imports Complex_Main "HOL-Library.Word"
begin

section \<open>The key-value store and the write path's upsert\<close>

text \<open>
  A stored record (one element of the list that \<open>convert_df_to_json\<close> returns, one item
  of the table \<open>interconnector-data\<close>): the two key attributes and one integer per
  interconnector country.
\<close>

record item =
  datetime :: int
  date :: int
  flows :: "(string \<times> int) list"

text \<open>
  The table is an external collaborator. It is modelled by what its three operations
  are documented to do: a finite map from the composite key \<open>(datetime, date)\<close> to the
  item stored under it. \<open>get_item\<close> answers with the item when the key is present
  (the \<open>"Item"\<close> entry of the response), \<open>put_item\<close> stores the item under its key and
  replaces whatever was there.
\<close>

type_synonym table = "(int \<times> int) \<rightharpoonup> item"

definition get_item :: "table \<Rightarrow> int \<times> int \<Rightarrow> item option" where
  "get_item tbl k = tbl k"

definition put_item :: "table \<Rightarrow> item \<Rightarrow> table" where
  "put_item tbl it = tbl((datetime it, date it) \<mapsto> it)"

definition check_if_exists :: "table \<Rightarrow> item \<Rightarrow> bool" where
  "check_if_exists tbl input =
     (case get_item tbl (datetime input, date input) of
        Some _ \<Rightarrow> True
      | None \<Rightarrow> False)"

definition put_into_dynamo_db :: "table \<Rightarrow> item \<Rightarrow> table" where
  "put_into_dynamo_db tbl input =
     (if check_if_exists tbl input = False then put_item tbl input else tbl)"

fun update_dynamo_db :: "table \<Rightarrow> item list \<Rightarrow> table" where
  "update_dynamo_db tbl [] = tbl"
| "update_dynamo_db tbl (entry # rest) = update_dynamo_db (put_into_dynamo_db tbl entry) rest"

section \<open>Properties of the upsert\<close>

lemma check_if_exists_iff:
  "check_if_exists tbl r = (tbl (datetime r, date r) \<noteq> None)"
  by (simp add: check_if_exists_def get_item_def split: option.splits)

lemma put_into_dynamo_db_present:
  "tbl (datetime r, date r) = Some v \<Longrightarrow> put_into_dynamo_db tbl r = tbl"
  by (simp add: put_into_dynamo_db_def check_if_exists_iff)

lemma put_into_dynamo_db_absent:
  "tbl (datetime r, date r) = None \<Longrightarrow>
   put_into_dynamo_db tbl r = tbl((datetime r, date r) \<mapsto> r)"
  by (simp add: put_into_dynamo_db_def check_if_exists_iff put_item_def)

lemma put_into_dynamo_db_key_present:
  "put_into_dynamo_db tbl r (datetime r, date r) \<noteq> None"
  by (cases "tbl (datetime r, date r)")
     (simp_all add: put_into_dynamo_db_present put_into_dynamo_db_absent)

text \<open>
  C3. When an item with the composite key \<open>(datetime r, date r)\<close> is already stored,
  inserting \<open>r\<close> changes nothing: the table after the insert is the table before it and
  the key still holds the value written first. Hence inserting the same record twice
  leaves the table that inserting it once leaves.
\<close>

theorem insert_existing_key_is_noop:
  "(tbl (datetime r, date r) = Some v \<longrightarrow>
      put_into_dynamo_db tbl r = tbl \<and>
      put_into_dynamo_db tbl r (datetime r, date r) = Some v) \<and>
   put_into_dynamo_db (put_into_dynamo_db tbl r) r = put_into_dynamo_db tbl r"
proof (intro conjI impI)
  assume present: "tbl (datetime r, date r) = Some v"
  then show same: "put_into_dynamo_db tbl r = tbl"
    by (rule put_into_dynamo_db_present)
  from present same show "put_into_dynamo_db tbl r (datetime r, date r) = Some v"
    by simp
next
  obtain w where "put_into_dynamo_db tbl r (datetime r, date r) = Some w"
    using put_into_dynamo_db_key_present [of tbl r] by auto
  then show "put_into_dynamo_db (put_into_dynamo_db tbl r) r = put_into_dynamo_db tbl r"
    by (rule put_into_dynamo_db_present)
qed

theorem insert_existing_key_is_noop_witness:
  "put_into_dynamo_db
     [(20240101000000, 20240101) \<mapsto>
        \<lparr>datetime = 20240101000000, date = 20240101, flows = [(''France'', 7)]\<rparr>]
     \<lparr>datetime = 20240101000000, date = 20240101, flows = [(''France'', 9)]\<rparr>
   = [(20240101000000, 20240101) \<mapsto>
        \<lparr>datetime = 20240101000000, date = 20240101, flows = [(''France'', 7)]\<rparr>]"
  using insert_existing_key_is_noop
    [of "[(20240101000000, 20240101) \<mapsto>
        \<lparr>datetime = 20240101000000, date = 20240101, flows = [(''France'', 7)]\<rparr>]"
        "\<lparr>datetime = 20240101000000, date = 20240101, flows = [(''France'', 9)]\<rparr>"
        "\<lparr>datetime = 20240101000000, date = 20240101, flows = [(''France'', 7)]\<rparr>"]
  by simp

section \<open>Calendar arithmetic of the \<open>datetime\<close> module\<close>

text \<open>
  Both handlers compute with \<open>datetime.datetime\<close> objects. The object is modelled with
  its seven fields, and the arithmetic with the functions of the standard library that
  the source's \<open>+\<close>, \<open>-\<close>, \<open>replace\<close> and \<open>timegm\<close> run: the proleptic Gregorian ordinal
  of a date (\<open>_ymd2ord\<close>, day 1 is 0001-01-01) and its inverse (\<open>_ord2ymd\<close>).
\<close>

text \<open>
  The exceptions of a run. \<open>HTTPError\<close> is \<open>requests.exceptions.HTTPError\<close> with its
  message and the status code of its response, when it carries a response;
  \<open>OtherError\<close> stands for any exception class the source does not name (a connection
  error, the API client's own errors, a store error); \<open>Exception\<close> is the plain
  \<open>Exception\<close> the source raises itself.
\<close>

record pydatetime =
  year :: int
  month :: int
  day :: int
  hour :: int
  minute :: int
  second :: int
  microsecond :: int

datatype exn =
    HTTPError string "int option"
  | OverflowError string
  | ValueError string
  | AttributeError string
  | KeyError string
  | OtherError string
  | Exception string

text \<open>\<open>str(e)\<close>: the message of an exception.\<close>

fun exn_str :: "exn \<Rightarrow> string" where
  "exn_str (HTTPError msg resp) = msg"
| "exn_str (OverflowError msg) = msg"
| "exn_str (ValueError msg) = msg"
| "exn_str (AttributeError msg) = msg"
| "exn_str (KeyError msg) = msg"
| "exn_str (OtherError msg) = msg"
| "exn_str (Exception msg) = msg"

definition DAYS_IN_MONTH :: "int list" where
  "DAYS_IN_MONTH = [-1, 31, 28, 31, 30, 31, 30, 31, 31, 30, 31, 30, 31]"

definition DAYS_BEFORE_MONTH :: "int list" where
  "DAYS_BEFORE_MONTH = [-1, 0, 31, 59, 90, 120, 151, 181, 212, 243, 273, 304, 334]"

definition is_leap :: "int \<Rightarrow> bool" where
  "is_leap y = (y mod 4 = 0 \<and> (y mod 100 \<noteq> 0 \<or> y mod 400 = 0))"

definition days_before_year :: "int \<Rightarrow> int" where
  "days_before_year yr = (let y = yr - 1 in y * 365 + y div 4 - y div 100 + y div 400)"

definition days_in_month :: "int \<Rightarrow> int \<Rightarrow> int" where
  "days_in_month y m = (if m = 2 \<and> is_leap y then 29 else DAYS_IN_MONTH ! nat m)"

definition days_before_month :: "int \<Rightarrow> int \<Rightarrow> int" where
  "days_before_month y m = DAYS_BEFORE_MONTH ! nat m + (if m > 2 \<and> is_leap y then 1 else 0)"

definition ymd2ord :: "int \<Rightarrow> int \<Rightarrow> int \<Rightarrow> int" where
  "ymd2ord y m d = days_before_year y + days_before_month y m + d"

definition DI400Y :: int where "DI400Y = 146097"
definition DI100Y :: int where "DI100Y = 36524"
definition DI4Y :: int where "DI4Y = 1461"
definition MAXORDINAL :: int where "MAXORDINAL = 3652059"

definition ord2ymd :: "int \<Rightarrow> int \<times> int \<times> int" where
  "ord2ymd n0 =
    (let n = n0 - 1;
         n400 = n div DI400Y; n = n mod DI400Y;
         yr = n400 * 400 + 1;
         n100 = n div DI100Y; n = n mod DI100Y;
         n4 = n div DI4Y; n = n mod DI4Y;
         n1 = n div 365; n = n mod 365;
         yr = yr + n100 * 100 + n4 * 4 + n1
     in if n1 = 4 \<or> n100 = 4 then (yr - 1, 12, 31)
        else
          let leapyear = (n1 = 3 \<and> (n4 \<noteq> 24 \<or> n100 = 3));
              mo = (n + 50) div 32;
              preceding = DAYS_BEFORE_MONTH ! nat mo + (if mo > 2 \<and> leapyear then 1 else 0)
          in if preceding > n
             then let mo = mo - 1;
                      preceding = preceding
                        - (DAYS_IN_MONTH ! nat mo + (if mo = 2 \<and> leapyear then 1 else 0))
                  in (yr, mo, n - preceding + 1)
             else (yr, mo, n - preceding + 1))"

definition toordinal :: "pydatetime \<Rightarrow> int" where
  "toordinal t = ymd2ord (year t) (month t) (day t)"

text \<open>
  A \<open>timedelta\<close> of the source is always a whole number of seconds (24 hours, 0 or 1
  hour, 15 minutes, 1 day, 2 hours); it is modelled by that number.
\<close>

type_synonym timedelta = int

definition td_hours :: "int \<Rightarrow> timedelta" where "td_hours h = h * 3600"
definition td_minutes :: "int \<Rightarrow> timedelta" where "td_minutes m = m * 60"
definition td_days :: "int \<Rightarrow> timedelta" where "td_days d = d * 86400"

text \<open>
  \<open>datetime.__add__\<close>: the ordinal and the time of day become one \<open>timedelta\<close>, the
  argument is added, and the normalised days and seconds are turned back into fields.
  A result outside the years 1 to 9999 raises \<open>OverflowError\<close>. The microseconds of a
  datetime object are below one million, so the sum leaves them as they are.
\<close>

definition total_seconds :: "pydatetime \<Rightarrow> int" where
  "total_seconds t = toordinal t * 86400 + hour t * 3600 + minute t * 60 + second t"

definition dt_add :: "pydatetime \<Rightarrow> timedelta \<Rightarrow> exn + pydatetime" where
  "dt_add t delta =
    (let total = total_seconds t + delta;
         days = total div 86400; secs = total mod 86400;
         hh = secs div 3600; rem = secs mod 3600;
         mi = rem div 60; ss = rem mod 60
     in if 0 < days \<and> days \<le> MAXORDINAL
        then (case ord2ymd days of (y, m, d) \<Rightarrow>
                Inr \<lparr>year = y, month = m, day = d, hour = hh, minute = mi, second = ss,
                     microsecond = microsecond t\<rparr>)
        else Inl (OverflowError ''date value out of range''))"

definition dt_sub :: "pydatetime \<Rightarrow> timedelta \<Rightarrow> exn + pydatetime" where
  "dt_sub t delta = dt_add t (- delta)"

text \<open>Comparison of two datetime objects: their field tuples, lexicographically.\<close>

definition dt_tuple :: "pydatetime \<Rightarrow> int list" where
  "dt_tuple t = [year t, month t, day t, hour t, minute t, second t, microsecond t]"

fun lex_le :: "int list \<Rightarrow> int list \<Rightarrow> bool" where
  "lex_le [] ys = True"
| "lex_le (x # xs) [] = False"
| "lex_le (x # xs) (y # ys) = (x < y \<or> (x = y \<and> lex_le xs ys))"

definition dt_le :: "pydatetime \<Rightarrow> pydatetime \<Rightarrow> bool" where
  "dt_le a b = lex_le (dt_tuple a) (dt_tuple b)"

section \<open>The ordinal functions are inverse to each other\<close>

text \<open>
  The proofs decompose a year into its 400-, 100-, 4- and 1-year cycles, as \<open>_ord2ymd\<close>
  does, and treat the month estimate \<open>(n + 50) >> 5\<close> of \<open>_ord2ymd\<close> month by month.
  \<open>month_day\<close> names the last part of \<open>_ord2ymd\<close> (day of the year to month and day);
  \<open>valid_date\<close> is the check of the \<open>date\<close> constructor.
\<close>

lemma divmod_int_unique:
  fixes a k q r :: int
  assumes "a = k * q + r" "0 \<le> r" "r < k"
  shows "a div k = q" and "a mod k = r"
  using assms by (auto intro: int_div_pos_eq int_mod_pos_eq)

lemma days_before_year_decomp:
  assumes "0 \<le> b" "b \<le> 3" "0 \<le> c" "c \<le> 24" "0 \<le> e" "e \<le> 3"
  shows "days_before_year (400 * a + 100 * b + 4 * c + e + 1)
         = 146097 * a + 36524 * b + 1461 * c + 365 * e"
proof -
  let ?y = "400 * a + 100 * b + 4 * c + e"
  have d4: "?y div 4 = 100 * a + 25 * b + c"
    by (rule divmod_int_unique(1) [where r = e]) (use assms in auto)
  have d100: "?y div 100 = 4 * a + b"
    by (rule divmod_int_unique(1) [where r = "4 * c + e"]) (use assms in auto)
  have d400: "?y div 400 = a"
    by (rule divmod_int_unique(1) [where r = "100 * b + 4 * c + e"]) (use assms in auto)
  show ?thesis
    unfolding days_before_year_def Let_def
    using d4 d100 d400 by simp
qed

lemma is_leap_decomp:
  assumes "0 \<le> b" "b \<le> 3" "0 \<le> c" "c \<le> 24" "0 \<le> e" "e \<le> 3"
  shows "is_leap (400 * a + 100 * b + 4 * c + e + 1) = (e = 3 \<and> (c \<noteq> 24 \<or> b = 3))"
proof -
  let ?y = "400 * a + 100 * b + 4 * c + e + 1"
  have m4: "?y mod 4 = (if e = 3 then 0 else e + 1)"
  proof (cases "e = 3")
    case True
    have "?y mod 4 = 0"
      by (rule divmod_int_unique(2) [where q = "100 * a + 25 * b + c + 1"]) (use True in auto)
    then show ?thesis using True by simp
  next
    case False
    have "?y mod 4 = e + 1"
      by (rule divmod_int_unique(2) [where q = "100 * a + 25 * b + c"]) (use False assms in auto)
    then show ?thesis using False by simp
  qed
  have m100: "?y mod 100 = (if c = 24 \<and> e = 3 then 0 else 4 * c + e + 1)"
  proof (cases "c = 24 \<and> e = 3")
    case True
    have "?y mod 100 = 0"
      by (rule divmod_int_unique(2) [where q = "4 * a + b + 1"]) (use True in auto)
    then show ?thesis using True by simp
  next
    case False
    have "?y mod 100 = 4 * c + e + 1"
      by (rule divmod_int_unique(2) [where q = "4 * a + b"]) (use False assms in auto)
    then show ?thesis using False by simp
  qed
  have m400: "?y mod 400 = (if b = 3 \<and> c = 24 \<and> e = 3 then 0 else 100 * b + 4 * c + e + 1)"
  proof (cases "b = 3 \<and> c = 24 \<and> e = 3")
    case True
    have "?y mod 400 = 0"
      by (rule divmod_int_unique(2) [where q = "a + 1"]) (use True in auto)
    then show ?thesis using True by simp
  next
    case False
    have "?y mod 400 = 100 * b + 4 * c + e + 1"
      by (rule divmod_int_unique(2) [where q = "a"]) (use False assms in auto)
    then show ?thesis using False by simp
  qed
  show ?thesis
    unfolding is_leap_def m4 m100 m400 using assms by auto
qed

definition month_day :: "bool \<Rightarrow> int \<Rightarrow> int \<times> int" where
  "month_day leapyear n =
     (let mo = (n + 50) div 32;
          preceding = DAYS_BEFORE_MONTH ! nat mo + (if mo > 2 \<and> leapyear then 1 else 0)
      in if preceding > n
         then let mo = mo - 1;
                  preceding = preceding
                    - (DAYS_IN_MONTH ! nat mo + (if mo = 2 \<and> leapyear then 1 else 0))
              in (mo, n - preceding + 1)
         else (mo, n - preceding + 1))"

definition md_ok :: "bool \<Rightarrow> int \<Rightarrow> int \<times> int \<Rightarrow> bool" where
  "md_ok lp n md = (case md of (m, d) \<Rightarrow>
     1 \<le> m \<and> m \<le> 12 \<and> 1 \<le> d \<and> d \<le> (if m = 2 \<and> lp then 29 else DAYS_IN_MONTH ! nat m) \<and>
     DAYS_BEFORE_MONTH ! nat m + (if m > 2 \<and> lp then 1 else 0) + d = n + 1)"

lemma div_bounds:
  fixes x k :: int
  assumes "0 < k"
  shows "k * (x div k) \<le> x" and "x < k * (x div k) + k"
proof -
  have "x = k * (x div k) + x mod k" by simp
  moreover have "0 \<le> x mod k" "x mod k < k" using assms by simp_all
  ultimately show "k * (x div k) \<le> x" and "x < k * (x div k) + k" by linarith+
qed

lemma month_day_at:
  assumes "(n + 50) div 32 = k" "k \<in> {1..12}" "0 \<le> n" "n \<le> 364"
  shows "md_ok lp n (month_day lp n)"
proof -
  have b: "32 * k \<le> n + 50" "n + 50 < 32 * k + 32"
    using div_bounds [of 32 "n + 50"] assms(1) by simp_all
  have "k = 1 \<or> k = 2 \<or> k = 3 \<or> k = 4 \<or> k = 5 \<or> k = 6
    \<or> k = 7 \<or> k = 8 \<or> k = 9 \<or> k = 10 \<or> k = 11 \<or> k = 12"
    using assms(2) by (simp add: atLeastAtMost_iff) arith
  then consider "k = 1" | "k = 2" | "k = 3" | "k = 4" | "k = 5" | "k = 6"
    | "k = 7" | "k = 8" | "k = 9" | "k = 10" | "k = 11" | "k = 12"
    by blast
  then show ?thesis
    using b assms(1,3,4)
    by cases
      (simp_all add: month_day_def md_ok_def Let_def DAYS_BEFORE_MONTH_def DAYS_IN_MONTH_def)
qed

lemma case_prod_if:
  "(case (if c then p else q) of (m, d) \<Rightarrow> f m d)
   = (if c then (case p of (m, d) \<Rightarrow> f m d) else (case q of (m, d) \<Rightarrow> f m d))"
  by simp

lemma ord2ymd_month_day:
  "ord2ymd n0 =
    (let n = n0 - 1;
         n400 = n div 146097; r1 = n mod 146097;
         n100 = r1 div 36524; r2 = r1 mod 36524;
         n4 = r2 div 1461; r3 = r2 mod 1461;
         n1 = r3 div 365; r4 = r3 mod 365;
         yr = n400 * 400 + 1 + n100 * 100 + n4 * 4 + n1
     in if n1 = 4 \<or> n100 = 4 then (yr - 1, 12, 31)
        else (case month_day (n1 = 3 \<and> (n4 \<noteq> 24 \<or> n100 = 3)) r4 of (m, d) \<Rightarrow> (yr, m, d)))"
  unfolding ord2ymd_def month_day_def Let_def DI400Y_def DI100Y_def DI4Y_def
  by (simp only: case_prod_if prod.case)

definition valid_date :: "int \<Rightarrow> int \<Rightarrow> int \<Rightarrow> bool" where
  "valid_date y m d = (1 \<le> y \<and> 1 \<le> m \<and> m \<le> 12 \<and> 1 \<le> d \<and> d \<le> days_in_month y m)"

lemma ord2ymd_inverse:
  assumes "1 \<le> n"
  shows "case ord2ymd n of (y, m, d) \<Rightarrow> ymd2ord y m d = n \<and> valid_date y m d"
proof -
  define n' where "n' = n - 1"
  define a where "a = n' div 146097"
  define r1 where "r1 = n' mod 146097"
  define b where "b = r1 div 36524"
  define r2 where "r2 = r1 mod 36524"
  define c where "c = r2 div 1461"
  define r3 where "r3 = r2 mod 1461"
  define e where "e = r3 div 365"
  define r4 where "r4 = r3 mod 365"
  have n': "0 \<le> n'" using assms by (simp add: n'_def)
  have e1: "n' = 146097 * a + r1" by (simp add: a_def r1_def)
  have e2: "r1 = 36524 * b + r2" by (simp add: b_def r2_def)
  have e3: "r2 = 1461 * c + r3" by (simp add: c_def r3_def)
  have e4: "r3 = 365 * e + r4" by (simp add: e_def r4_def)
  have br1: "0 \<le> r1" "r1 < 146097" by (simp_all add: r1_def)
  have br2: "0 \<le> r2" "r2 < 36524" by (simp_all add: r2_def)
  have br3: "0 \<le> r3" "r3 < 1461" by (simp_all add: r3_def)
  have br4: "0 \<le> r4" "r4 < 365" by (simp_all add: r4_def)
  have a0: "0 \<le> a" using n' by (simp add: a_def pos_imp_zdiv_nonneg_iff)
  have b0: "0 \<le> b" using br1 by (simp add: b_def pos_imp_zdiv_nonneg_iff)
  have c0: "0 \<le> c" using br2 by (simp add: c_def pos_imp_zdiv_nonneg_iff)
  have e0: "0 \<le> e" using br3 by (simp add: e_def pos_imp_zdiv_nonneg_iff)
  have b4: "b \<le> 4" using e2 br1 br2 by linarith
  have c24: "c \<le> 24" using e3 br2 br3 by linarith
  have e4': "e \<le> 4" using e4 br3 br4 by linarith
  have unfold: "ord2ymd n =
      (if e = 4 \<or> b = 4 then (a * 400 + 1 + b * 100 + c * 4 + e - 1, 12, 31)
       else (case month_day (e = 3 \<and> (c \<noteq> 24 \<or> b = 3)) r4 of
               (m, d) \<Rightarrow> (a * 400 + 1 + b * 100 + c * 4 + e, m, d)))"
    unfolding ord2ymd_month_day Let_def e_def r4_def r3_def c_def r2_def b_def r1_def a_def n'_def
    by (rule refl)
  have nn: "n = n' + 1" by (simp add: n'_def)
  show ?thesis
  proof (cases "b = 4")
    case True
    then have z: "r2 = 0" using e2 br1 br2 by linarith
    then have "c = 0" "r3 = 0" by (simp_all add: c_def r3_def)
    then have "e = 0" "r4 = 0" by (simp_all add: e_def r4_def)
    have dby: "days_before_year (400 * a + 100 * 3 + 4 * 24 + 3 + 1)
         = 146097 * a + 36524 * 3 + 1461 * 24 + 365 * 3"
      by (rule days_before_year_decomp) simp_all
    have lp: "is_leap (400 * a + 100 * 3 + 4 * 24 + 3 + 1)"
      by (subst is_leap_decomp) simp_all
    have yr: "a * 400 + 1 + b * 100 + c * 4 + e - 1 = 400 * a + 100 * 3 + 4 * 24 + 3 + 1"
      using True \<open>c = 0\<close> \<open>e = 0\<close> by simp
    have "ymd2ord (400 * a + 100 * 3 + 4 * 24 + 3 + 1) 12 31 = n"
      unfolding ymd2ord_def days_before_month_def dby
      using lp nn e1 e2 z True by (simp add: DAYS_BEFORE_MONTH_def)
    moreover have "valid_date (400 * a + 100 * 3 + 4 * 24 + 3 + 1) 12 31"
      using a0 by (simp add: valid_date_def days_in_month_def DAYS_IN_MONTH_def)
    ultimately show ?thesis
      unfolding unfold yr using True by simp
  next
    case nb4: False
    then have b3: "b \<le> 3" using b4 by simp
    show ?thesis
    proof (cases "e = 4")
      case True
      then have r4z: "r4 = 0" using e4 br3 br4 by linarith
      have c23: "c \<le> 23" using True e3 e4 br2 br4 by linarith
      have dby: "days_before_year (400 * a + 100 * b + 4 * c + 3 + 1)
         = 146097 * a + 36524 * b + 1461 * c + 365 * 3"
        by (rule days_before_year_decomp) (use b0 b3 c0 c24 in simp_all)
      have lp: "is_leap (400 * a + 100 * b + 4 * c + 3 + 1)"
        by (subst is_leap_decomp) (use b0 b3 c0 c23 in simp_all)
      have yr: "a * 400 + 1 + b * 100 + c * 4 + e - 1 = 400 * a + 100 * b + 4 * c + 3 + 1"
        using True by simp
      have "ymd2ord (400 * a + 100 * b + 4 * c + 3 + 1) 12 31 = n"
        unfolding ymd2ord_def days_before_month_def dby
        using lp nn e1 e2 e3 e4 r4z True by (simp add: DAYS_BEFORE_MONTH_def)
      moreover have "valid_date (400 * a + 100 * b + 4 * c + 3 + 1) 12 31"
        using a0 b0 c0 by (simp add: valid_date_def days_in_month_def DAYS_IN_MONTH_def)
      ultimately show ?thesis
        unfolding unfold yr using True by simp
    next
      case False
      then have e3': "e \<le> 3" using e4' by simp
      let ?lp = "e = 3 \<and> (c \<noteq> 24 \<or> b = 3)"
      let ?y = "400 * a + 100 * b + 4 * c + e + 1"
      obtain m d where md: "month_day ?lp r4 = (m, d)" by (cases "month_day ?lp r4")
      have kb: "(r4 + 50) div 32 \<in> {1..12}"
        using div_bounds [of 32 "r4 + 50"] br4 by (simp add: atLeastAtMost_iff)
      have ok: "md_ok ?lp r4 (m, d)"
        using month_day_at [OF refl kb br4(1), of ?lp] br4(2) md by simp
      have dby: "days_before_year ?y = 146097 * a + 36524 * b + 1461 * c + 365 * e"
        by (rule days_before_year_decomp) (use b0 b3 c0 c24 e0 e3' in simp_all)
      have lp: "is_leap ?y = ?lp"
        by (rule is_leap_decomp) (use b0 b3 c0 c24 e0 e3' in simp_all)
      have yr: "a * 400 + 1 + b * 100 + c * 4 + e = ?y" by simp
      have "ymd2ord ?y m d = n"
        unfolding ymd2ord_def days_before_month_def dby lp
        using ok nn e1 e2 e3 e4 by (simp add: md_ok_def)
      moreover have "valid_date ?y m d"
        unfolding valid_date_def days_in_month_def lp
        using ok a0 b0 c0 e0 by (simp add: md_ok_def)
      ultimately show ?thesis
        unfolding unfold yr using False nb4 md by simp
    qed
  qed
qed

lemma month_day_unfold:
  assumes "(n + 50) div 32 = k"
  shows "month_day lp n =
     (if DAYS_BEFORE_MONTH ! nat k + (if k > 2 \<and> lp then 1 else 0) > n
      then (k - 1, n - (DAYS_BEFORE_MONTH ! nat k + (if k > 2 \<and> lp then 1 else 0)
                 - (DAYS_IN_MONTH ! nat (k - 1) + (if k - 1 = 2 \<and> lp then 1 else 0))) + 1)
      else (k, n - (DAYS_BEFORE_MONTH ! nat k + (if k > 2 \<and> lp then 1 else 0)) + 1))"
  using assms by (simp add: month_day_def Let_def)

lemma month_day_of_date:
  assumes "1 \<le> m" "m \<le> 12" "1 \<le> d"
    and "d \<le> (if m = 2 \<and> lp then 29 else DAYS_IN_MONTH ! nat m)"
    and "n = DAYS_BEFORE_MONTH ! nat m + (if m > 2 \<and> lp then 1 else 0) + d - 1"
    and "n \<le> 364"
  shows "month_day lp n = (m, d)"
proof -
  define k where "k = (n + 50) div 32"
  have kb: "32 * k \<le> n + 50" "n + 50 < 32 * k + 32"
    using div_bounds [of 32 "n + 50"] by (simp_all add: k_def)
  have "m = 1 \<or> m = 2 \<or> m = 3 \<or> m = 4 \<or> m = 5 \<or> m = 6
    \<or> m = 7 \<or> m = 8 \<or> m = 9 \<or> m = 10 \<or> m = 11 \<or> m = 12"
    using assms(1,2) by arith
  then consider "m = 1" | "m = 2" | "m = 3" | "m = 4" | "m = 5" | "m = 6"
    | "m = 7" | "m = 8" | "m = 9" | "m = 10" | "m = 11" | "m = 12"
    by blast
  then have "k = m \<or> k = m + 1"
    using kb assms(3-6)
    by cases (simp_all add: DAYS_BEFORE_MONTH_def DAYS_IN_MONTH_def split: if_splits, arith+)
  then show ?thesis
  proof
    assume "k = m"
    with \<open>m = 1 \<or> _\<close> kb assms(3-6) show ?thesis
      unfolding month_day_unfold [OF k_def [symmetric]]
      by (auto simp: DAYS_BEFORE_MONTH_def DAYS_IN_MONTH_def split: if_splits)
  next
    assume "k = m + 1"
    with \<open>m = 1 \<or> _\<close> kb assms(3-6) show ?thesis
      unfolding month_day_unfold [OF k_def [symmetric]]
      by (auto simp: DAYS_BEFORE_MONTH_def DAYS_IN_MONTH_def split: if_splits)
  qed
qed

lemma ord2ymd_of_decomp:
  assumes "0 \<le> b" "b \<le> 3" "0 \<le> c" "c \<le> 24" "0 \<le> e" "e \<le> 3" "0 \<le> r" "r \<le> 364"
  shows "ord2ymd (146097 * a + 36524 * b + 1461 * c + 365 * e + r + 1) =
     (case month_day (e = 3 \<and> (c \<noteq> 24 \<or> b = 3)) r of
        (m, d) \<Rightarrow> (400 * a + 100 * b + 4 * c + e + 1, m, d))"
proof -
  let ?n = "146097 * a + 36524 * b + 1461 * c + 365 * e + r + 1 - 1"
  let ?r1 = "36524 * b + 1461 * c + 365 * e + r"
  let ?r2 = "1461 * c + 365 * e + r"
  let ?r3 = "365 * e + r"
  have s1: "?n div 146097 = a" "?n mod 146097 = ?r1"
    by (rule divmod_int_unique [where r = ?r1 and q = a]; use assms in simp)+
  have s2: "?r1 div 36524 = b" "?r1 mod 36524 = ?r2"
    by (rule divmod_int_unique [where r = ?r2 and q = b]; use assms in simp)+
  have s3: "?r2 div 1461 = c" "?r2 mod 1461 = ?r3"
    by (rule divmod_int_unique [where r = ?r3 and q = c]; use assms in simp)+
  have s4: "?r3 div 365 = e" "?r3 mod 365 = r"
    by (rule divmod_int_unique [where r = r and q = e]; use assms in simp)+
  have ne: "\<not> (e = 4 \<or> b = 4)" using assms by simp
  have yr: "a * 400 + 1 + b * 100 + c * 4 + e = 400 * a + 100 * b + 4 * c + e + 1" by simp
  show ?thesis
    unfolding ord2ymd_month_day Let_def s1 s2 s3 s4 yr
    using ne by (simp only: if_False)
qed

lemma ord2ymd_of_decomp_last:
  assumes "0 \<le> b" "b \<le> 3" "0 \<le> c" "c \<le> 24" "c \<noteq> 24 \<or> b = 3"
  shows "ord2ymd (146097 * a + 36524 * b + 1461 * c + 365 * 3 + 365 + 1) =
     (400 * a + 100 * b + 4 * c + 3 + 1, 12, 31)"
proof (cases "c = 24")
  case True
  then have b: "b = 3" using assms by simp
  let ?n = "146097 * a + 36524 * b + 1461 * c + 365 * 3 + 365 + 1 - 1"
  have s1: "?n div 146097 = a" "?n mod 146097 = 146096"
    by (rule divmod_int_unique [where r = 146096 and q = a]; use True b in simp)+
  have s2: "(146096::int) div 36524 = 4" by simp
  show ?thesis
    unfolding ord2ymd_month_day Let_def s1 s2
    using True b by simp
next
  case False
  then have c23: "c \<le> 23" using assms by simp
  let ?n = "146097 * a + 36524 * b + 1461 * c + 365 * 3 + 365 + 1 - 1"
  let ?r1 = "36524 * b + 1461 * c + 1460"
  let ?r2 = "1461 * c + 1460"
  have s1: "?n div 146097 = a" "?n mod 146097 = ?r1"
    by (rule divmod_int_unique [where r = ?r1 and q = a]; use assms c23 in simp)+
  have s2: "?r1 div 36524 = b" "?r1 mod 36524 = ?r2"
    by (rule divmod_int_unique [where r = ?r2 and q = b]; use assms c23 in simp)+
  have s3: "?r2 div 1461 = c" "?r2 mod 1461 = 1460"
    by (rule divmod_int_unique [where r = 1460 and q = c]; use assms c23 in simp)+
  have s4: "(1460::int) div 365 = 4" by simp
  show ?thesis
    unfolding ord2ymd_month_day Let_def s1 s2 s3 s4
    by simp
qed

lemma year_decomp:
  fixes x :: int
  obtains a b c e where "x = 400 * a + 100 * b + 4 * c + e"
    "0 \<le> b" "b \<le> 3" "0 \<le> c" "c \<le> 24" "0 \<le> e" "e \<le> 3" "a = x div 400"
proof -
  define a where "a = x div 400"
  define r where "r = x mod 400"
  define b where "b = r div 100"
  define s where "s = r mod 100"
  define c where "c = s div 4"
  define e where "e = s mod 4"
  have 1: "x = 400 * a + r" by (simp add: a_def r_def)
  have 2: "r = 100 * b + s" by (simp add: b_def s_def)
  have 3: "s = 4 * c + e" by (simp add: c_def e_def)
  have br: "0 \<le> r" "r < 400" by (simp_all add: r_def)
  have bs: "0 \<le> s" "s < 100" by (simp_all add: s_def)
  have be: "0 \<le> e" "e < 4" by (simp_all add: e_def)
  have b0: "0 \<le> b" using br by (simp add: b_def pos_imp_zdiv_nonneg_iff)
  have c0: "0 \<le> c" using bs by (simp add: c_def pos_imp_zdiv_nonneg_iff)
  have "b \<le> 3" using 2 br bs by linarith
  moreover have "c \<le> 24" using 3 bs be by linarith
  moreover have "x = 400 * a + 100 * b + 4 * c + e" using 1 2 3 by simp
  ultimately show thesis using that [of a b c e] b0 c0 be a_def by simp
qed

lemma day_of_year_bounds:
  assumes "valid_date y m d"
  shows "0 \<le> days_before_month y m + d - 1"
    and "days_before_month y m + d - 1 \<le> (if is_leap y then 365 else 364)"
    and "days_before_month y m + d - 1 = 365 \<Longrightarrow> m = 12 \<and> d = 31"
proof -
  have "m = 1 \<or> m = 2 \<or> m = 3 \<or> m = 4 \<or> m = 5 \<or> m = 6
    \<or> m = 7 \<or> m = 8 \<or> m = 9 \<or> m = 10 \<or> m = 11 \<or> m = 12"
    using assms unfolding valid_date_def by arith
  then have "0 \<le> days_before_month y m + d - 1
     \<and> days_before_month y m + d - 1 \<le> (if is_leap y then 365 else 364)
     \<and> (days_before_month y m + d - 1 = 365 \<longrightarrow> m = 12 \<and> d = 31)"
    using assms unfolding valid_date_def days_in_month_def days_before_month_def
    by (auto simp: DAYS_BEFORE_MONTH_def DAYS_IN_MONTH_def split: if_splits)
  then show "0 \<le> days_before_month y m + d - 1"
    and "days_before_month y m + d - 1 \<le> (if is_leap y then 365 else 364)"
    and "days_before_month y m + d - 1 = 365 \<Longrightarrow> m = 12 \<and> d = 31"
    by simp_all
qed

lemma ymd2ord_inverse:
  assumes v: "valid_date y m d"
  shows "ord2ymd (ymd2ord y m d) = (y, m, d)"
proof -
  obtain a b c e where x: "y - 1 = 400 * a + 100 * b + 4 * c + e"
    and bd: "0 \<le> b" "b \<le> 3" "0 \<le> c" "c \<le> 24" "0 \<le> e" "e \<le> 3"
    by (rule year_decomp [of "y - 1"])
  have y: "y = 400 * a + 100 * b + 4 * c + e + 1" using x by simp
  define r where "r = days_before_month y m + d - 1"
  have dby: "days_before_year y = 146097 * a + 36524 * b + 1461 * c + 365 * e"
    unfolding y by (rule days_before_year_decomp) (use bd in simp_all)
  have lp: "is_leap y = (e = 3 \<and> (c \<noteq> 24 \<or> b = 3))"
    unfolding y by (rule is_leap_decomp) (use bd in simp_all)
  have ord: "ymd2ord y m d = 146097 * a + 36524 * b + 1461 * c + 365 * e + r + 1"
    by (simp add: ymd2ord_def dby r_def)
  have rb: "0 \<le> r" "r \<le> (if is_leap y then 365 else 364)" "r = 365 \<Longrightarrow> m = 12 \<and> d = 31"
    using day_of_year_bounds [OF v] by (simp_all add: r_def)
  show ?thesis
  proof (cases "r = 365")
    case True
    then have l: "is_leap y" using rb(2) by (simp split: if_splits)
    then have e3: "e = 3" and cb: "c \<noteq> 24 \<or> b = 3" using lp by simp_all
    have "ord2ymd (ymd2ord y m d) = (400 * a + 100 * b + 4 * c + 3 + 1, 12, 31)"
      unfolding ord True e3
      by (rule ord2ymd_of_decomp_last) (use bd cb in simp_all)
    then show ?thesis using rb(3) True y e3 by simp
  next
    case False
    then have r364: "r \<le> 364" using rb(2) by (simp split: if_splits)
    have md: "month_day (is_leap y) r = (m, d)"
      by (rule month_day_of_date)
        (use v r364 in \<open>simp_all add: valid_date_def days_in_month_def r_def days_before_month_def\<close>)
    have "ord2ymd (ymd2ord y m d) =
       (case month_day (e = 3 \<and> (c \<noteq> 24 \<or> b = 3)) r of
          (m, d) \<Rightarrow> (400 * a + 100 * b + 4 * c + e + 1, m, d))"
      unfolding ord by (rule ord2ymd_of_decomp) (use bd rb(1) r364 in simp_all)
    then show ?thesis using md lp y by simp
  qed
qed

lemma time_of_day_recompose:
  fixes secs :: int
  shows "secs div 3600 * 3600 + secs mod 3600 div 60 * 60 + secs mod 3600 mod 60 = secs"
proof -
  have "secs mod 3600 div 60 * 60 + secs mod 3600 mod 60 = secs mod 3600" by simp
  then show ?thesis by simp
qed

lemma dt_add_total_seconds:
  assumes "dt_add t delta = Inr s"
  shows "total_seconds s = total_seconds t + delta"
    and "total_seconds s < (MAXORDINAL + 1) * 86400"
    and "valid_date (year s) (month s) (day s)"
proof -
  define total where "total = total_seconds t + delta"
  define days where "days = total div 86400"
  define secs where "secs = total mod 86400"
  obtain y m d where ymd: "ord2ymd days = (y, m, d)" by (cases "ord2ymd days") auto
  have rng: "0 < days" "days \<le> MAXORDINAL"
    using assms unfolding dt_add_def Let_def total_def days_def
    by (auto split: if_splits)
  have s: "s = \<lparr>year = y, month = m, day = d, hour = secs div 3600,
      minute = secs mod 3600 div 60, second = secs mod 3600 mod 60,
      microsecond = microsecond t\<rparr>"
    using assms rng ymd unfolding dt_add_def Let_def total_def days_def secs_def
    by (auto split: if_splits)
  have inv: "ymd2ord y m d = days" "valid_date y m d"
    using ord2ymd_inverse [of days] rng(1) ymd by auto
  have "total_seconds s = days * 86400 + secs"
    using time_of_day_recompose [of secs] by (simp add: s total_seconds_def toordinal_def inv)
  also have "\<dots> = total" by (simp add: days_def secs_def)
  finally show ts: "total_seconds s = total_seconds t + delta" by (simp add: total_def)
  have "secs < 86400" by (simp add: secs_def)
  with rng(2) \<open>total_seconds s = days * 86400 + secs\<close>
  show "total_seconds s < (MAXORDINAL + 1) * 86400" by (simp add: MAXORDINAL_def)
  show "valid_date (year s) (month s) (day s)" using inv(2) by (simp add: s)
qed

section \<open>Strings of digits\<close>

text \<open>
  \<open>str\<close> of an integer, \<open>int\<close> of a string and the zero-padded fields of \<open>strftime\<close>.
  \<open>int\<close> is modelled on the strings the source passes to it: an optional minus sign
  followed by decimal digits; anything else raises \<open>ValueError\<close>.
\<close>

definition digit_char :: "int \<Rightarrow> char" where
  "digit_char d = char_of (48 + d)"

definition is_digit :: "char \<Rightarrow> bool" where
  "is_digit c = (48 \<le> (of_char c :: int) \<and> (of_char c :: int) \<le> 57)"

definition digit_val :: "char \<Rightarrow> int" where
  "digit_val c = of_char c - 48"

function str_nat :: "int \<Rightarrow> string" where
  "str_nat n = (if n < 10 then [digit_char n] else str_nat (n div 10) @ [digit_char (n mod 10)])"
  by pat_completeness auto
termination
  by (relation "measure nat") auto

declare str_nat.simps [simp del]

definition str_int :: "int \<Rightarrow> string" where
  "str_int i = (if i < 0 then CHR ''-'' # str_nat (- i) else str_nat i)"

definition int_of_digits :: "string \<Rightarrow> int" where
  "int_of_digits s = foldl (\<lambda>acc c. 10 * acc + digit_val c) 0 s"

definition py_int :: "string \<Rightarrow> exn + int" where
  "py_int s =
     (case s of
        [] \<Rightarrow> Inl (ValueError ''invalid literal for int()'')
      | c # ds \<Rightarrow>
          if c = CHR ''-'' \<and> ds \<noteq> [] \<and> list_all is_digit ds then Inr (- int_of_digits ds)
          else if list_all is_digit s then Inr (int_of_digits s)
          else Inl (ValueError ''invalid literal for int()''))"

definition zero_pad :: "nat \<Rightarrow> int \<Rightarrow> string" where
  "zero_pad w v = (let s = str_int v in replicate (w - length s) CHR ''0'' @ s)"

datatype directive = DirY | Dirm | Dird | DirH | DirM | DirS

fun strftime_field :: "pydatetime \<Rightarrow> directive \<Rightarrow> string" where
  "strftime_field t DirY = zero_pad 4 (year t)"
| "strftime_field t Dirm = zero_pad 2 (month t)"
| "strftime_field t Dird = zero_pad 2 (day t)"
| "strftime_field t DirH = zero_pad 2 (hour t)"
| "strftime_field t DirM = zero_pad 2 (minute t)"
| "strftime_field t DirS = zero_pad 2 (second t)"

definition strftime :: "pydatetime \<Rightarrow> directive list \<Rightarrow> string" where
  "strftime t fmt = concat (map (strftime_field t) fmt)"

definition fmt_YmdHMS :: "directive list" where
  "fmt_YmdHMS = [DirY, Dirm, Dird, DirH, DirM, DirS]"

definition fmt_Ymd :: "directive list" where
  "fmt_Ymd = [DirY, Dirm, Dird]"

section \<open>\<open>strptime\<close>\<close>

text \<open>
  \<open>datetime.strptime\<close> turns the format into a regular expression, one group per
  directive, each group an ordered alternation of character-class sequences, and
  matches it at the start of the string with backtracking. A class is a range of
  characters, an alternative a list of classes, a group a list of alternatives.
\<close>

type_synonym cls = "char \<times> char"

definition in_cls :: "cls \<Rightarrow> char \<Rightarrow> bool" where
  "in_cls r c = ((of_char (fst r) :: int) \<le> of_char c \<and> (of_char c :: int) \<le> of_char (snd r))"

fun match_alt :: "cls list \<Rightarrow> string \<Rightarrow> (string \<times> string) option" where
  "match_alt [] s = Some ([], s)"
| "match_alt (r # rs) [] = None"
| "match_alt (r # rs) (c # s) =
     (if in_cls r c
      then (case match_alt rs s of None \<Rightarrow> None | Some (m, rest) \<Rightarrow> Some (c # m, rest))
      else None)"

fun match_groups :: "cls list list \<Rightarrow> cls list list list \<Rightarrow> string \<Rightarrow> (string list \<times> string) option" where
  "match_groups [] gs s = None"
| "match_groups (a # alts) gs s =
     (case match_alt a s of
        None \<Rightarrow> match_groups alts gs s
      | Some (m, rest) \<Rightarrow>
          (case gs of
             [] \<Rightarrow> Some ([m], rest)
           | g # gs' \<Rightarrow>
               (case match_groups g gs' rest of
                  Some (ms, r) \<Rightarrow> Some (m # ms, r)
                | None \<Rightarrow> match_groups alts gs s)))"

definition any_digit :: cls where "any_digit = (CHR ''0'', CHR ''9'')"
definition one_char :: "char \<Rightarrow> cls" where "one_char c = (c, c)"

fun directive_regex :: "directive \<Rightarrow> cls list list" where
  "directive_regex DirY = [[any_digit, any_digit, any_digit, any_digit]]"
| "directive_regex Dirm =
     [[one_char CHR ''1'', (CHR ''0'', CHR ''2'')],
      [one_char CHR ''0'', (CHR ''1'', CHR ''9'')],
      [(CHR ''1'', CHR ''9'')]]"
| "directive_regex Dird =
     [[one_char CHR ''3'', (CHR ''0'', CHR ''1'')],
      [(CHR ''1'', CHR ''2''), any_digit],
      [one_char CHR ''0'', (CHR ''1'', CHR ''9'')],
      [(CHR ''1'', CHR ''9'')],
      [one_char CHR '' '', (CHR ''1'', CHR ''9'')]]"
| "directive_regex DirH =
     [[one_char CHR ''2'', (CHR ''0'', CHR ''3'')],
      [(CHR ''0'', CHR ''1''), any_digit],
      [any_digit]]"
| "directive_regex DirM =
     [[(CHR ''0'', CHR ''5''), any_digit],
      [any_digit]]"
| "directive_regex DirS =
     [[one_char CHR ''6'', (CHR ''0'', CHR ''1'')],
      [(CHR ''0'', CHR ''5''), any_digit],
      [any_digit]]"

text \<open>
  No match, text left over after the match, or field values that the \<open>datetime\<close>
  constructor refuses all raise \<open>ValueError\<close>. The format of the source names all six
  fields, in the order year to second.
\<close>

definition strptime_YmdHMS :: "string \<Rightarrow> exn + pydatetime" where
  "strptime_YmdHMS s =
     (case match_groups (directive_regex DirY) (map directive_regex [Dirm, Dird, DirH, DirM, DirS]) s of
        None \<Rightarrow> Inl (ValueError ''time data does not match format'')
      | Some (ms, rest) \<Rightarrow>
          if rest \<noteq> [] then Inl (ValueError ''unconverted data remains'')
          else
            (case map int_of_digits ms of
               [y, m, d, hh, mi, ss] \<Rightarrow>
                 if 1 \<le> y \<and> y \<le> 9999 \<and> 1 \<le> m \<and> m \<le> 12 \<and> 1 \<le> d \<and> d \<le> days_in_month y m
                    \<and> 0 \<le> hh \<and> hh \<le> 23 \<and> 0 \<le> mi \<and> mi \<le> 59 \<and> 0 \<le> ss \<and> ss \<le> 59
                 then Inr \<lparr>year = y, month = m, day = d, hour = hh, minute = mi, second = ss,
                           microsecond = 0\<rparr>
                 else Inl (ValueError ''value out of range'')
             | _ \<Rightarrow> Inl (ValueError ''time data does not match format'')))"

text \<open>\<open>calendar.timegm\<close> on the time tuple of a datetime.\<close>

definition EPOCH_ORD :: int where "EPOCH_ORD = ymd2ord 1970 1 1"

definition timegm :: "pydatetime \<Rightarrow> int" where
  "timegm t =
     (let days = ymd2ord (year t) (month t) 1 - EPOCH_ORD + day t - 1;
          hours = days * 24 + hour t;
          minutes = hours * 60 + minute t;
          seconds = minutes * 60 + second t
      in seconds)"

section \<open>The Query Service\<close>

text \<open>
  The clock is the environment's: \<open>clock k\<close> is what the \<open>k\<close>-th call of
  \<open>datetime.datetime.today()\<close> of an invocation returns. \<open>get_date_keys\<close> reads it once
  for the rounded end of the window and once more at every test of its loop.
\<close>

type_synonym clock = "nat \<Rightarrow> pydatetime"

definition hour_rounder :: "pydatetime \<Rightarrow> exn + pydatetime" where
  "hour_rounder t =
     dt_add (t\<lparr>second := 0, microsecond := 0, minute := 0, hour := hour t\<rparr>)
       (td_hours (minute t div 30))"

function date_keys_loop :: "clock \<Rightarrow> nat \<Rightarrow> pydatetime \<Rightarrow> int list \<Rightarrow> exn + int list" where
  "date_keys_loop clk k start_range date_keys =
     (if dt_le start_range (clk k)
      then (case dt_add start_range (td_minutes 15) of
              Inl e \<Rightarrow> Inl e
            | Inr start_range' \<Rightarrow>
                (case py_int (strftime start_range' fmt_YmdHMS) of
                   Inl e \<Rightarrow> Inl e
                 | Inr key \<Rightarrow> date_keys_loop clk (Suc k) start_range' (date_keys @ [key])))
      else Inr date_keys)"
  by pat_completeness auto
termination
proof (relation "measure (\<lambda>(clk, k, start_range, date_keys).
        nat ((MAXORDINAL + 1) * 86400 - total_seconds start_range))")
  show "wf (measure (\<lambda>(clk, k, start_range, date_keys).
        nat ((MAXORDINAL + 1) * 86400 - total_seconds start_range)))"
    by simp
next
  fix clk :: clock and k :: nat and start_range start_range' :: pydatetime
    and date_keys :: "int list" and key :: int
  assume "dt_add start_range (td_minutes 15) = Inr start_range'"
  from dt_add_total_seconds(1,2) [OF this]
  show "((clk, Suc k, start_range', date_keys @ [key]), (clk, k, start_range, date_keys))
    \<in> measure (\<lambda>(clk, k, start_range, date_keys).
        nat ((MAXORDINAL + 1) * 86400 - total_seconds start_range))"
    by (simp add: td_minutes_def)
qed

declare date_keys_loop.simps [simp del]

definition get_date_keys :: "clock \<Rightarrow> exn + int list" where
  "get_date_keys clk =
     (case hour_rounder (clk 0) of
        Inl e \<Rightarrow> Inl e
      | Inr end_range \<Rightarrow>
          (case dt_sub end_range (td_hours 24) of
             Inl e \<Rightarrow> Inl e
           | Inr start_range \<Rightarrow> date_keys_loop clk 1 start_range []))"

text \<open>
  The store's answer to \<open>batch_get_item\<close> is the environment's: the call either raises
  or returns a dictionary that may hold \<open>"Responses"\<close>, a map from table names to the
  items found. Only that entry is modelled; the source reads no other.
\<close>

record batch_data =
  Responses :: "(string \<rightharpoonup> item list) option"

type_synonym store_reader = "(int \<times> int) list \<Rightarrow> exn + batch_data"

definition table_name :: string where
  "table_name = ''interconnector-data''"

fun convert_items :: "item list \<Rightarrow> exn + item list" where
  "convert_items [] = Inr []"
| "convert_items (it # rest) =
     (case strptime_YmdHMS (str_int (datetime it)) of
        Inl e \<Rightarrow> Inl e
      | Inr time_stamp \<Rightarrow>
          (case convert_items rest of
             Inl e \<Rightarrow> Inl e
           | Inr rest' \<Rightarrow> Inr (it\<lparr>datetime := timegm time_stamp\<rparr> # rest')))"

definition convert_to_epoch :: "batch_data \<Rightarrow> exn + batch_data" where
  "convert_to_epoch interconnector_data =
     (case (case Responses interconnector_data of
              None \<Rightarrow> Inl (KeyError ''Responses'')
            | Some resp \<Rightarrow>
                (case resp table_name of
                   None \<Rightarrow> Inl (KeyError table_name)
                 | Some items \<Rightarrow>
                     (case convert_items items of
                        Inl e \<Rightarrow> Inl e
                      | Inr items' \<Rightarrow>
                          Inr (interconnector_data\<lparr>Responses := Some (resp(table_name \<mapsto> items'))\<rparr>))))
      of Inl e \<Rightarrow> Inl (Exception (''Error converting to epoch: '' @ exn_str e))
       | Inr d \<Rightarrow> Inr d)"

fun request_keys :: "int list \<Rightarrow> exn + (int \<times> int) list" where
  "request_keys [] = Inr []"
| "request_keys (dt # rest) =
     (case py_int (take 8 (str_int dt)) of
        Inl e \<Rightarrow> Inl e
      | Inr d \<Rightarrow>
          (case request_keys rest of
             Inl e \<Rightarrow> Inl e
           | Inr ks \<Rightarrow> Inr ((dt, d) # ks)))"

definition get_todays_data_from_db :: "clock \<Rightarrow> store_reader \<Rightarrow> exn + batch_data" where
  "get_todays_data_from_db clk batch_get_item =
     (case (case get_date_keys clk of
              Inl e \<Rightarrow> Inl e
            | Inr date_keys \<Rightarrow>
                (case request_keys date_keys of
                   Inl e \<Rightarrow> Inl e
                 | Inr keys \<Rightarrow>
                     (case batch_get_item keys of
                        Inl e \<Rightarrow> Inl e
                      | Inr data \<Rightarrow>
                          (case Responses data of
                             None \<Rightarrow> Inl (Exception ''No data found in DynamoDB response'')
                           | Some resp \<Rightarrow>
                               (case resp table_name of
                                  None \<Rightarrow> Inl (Exception ''No data found in DynamoDB response'')
                                | Some items \<Rightarrow>
                                    convert_to_epoch
                                      (data\<lparr>Responses :=
                                         Some (resp(table_name \<mapsto> sort_key datetime items))\<rparr>))))))
      of Inl e \<Rightarrow> Inl (Exception (''Error fetching data from DynamoDB: '' @ exn_str e))
       | Inr d \<Rightarrow> Inr d)"

text \<open>
  A response of a handler. The body is kept as the JSON document that \<open>json.dumps\<close>
  writes, not as its text. The ingestion handler sets no headers.
\<close>

datatype json =
    JString string
  | JNumber int
  | JArray "json list"
  | JObject "(string \<times> json) list"
  | JData batch_data

record response =
  statusCode :: int
  headers :: "(string \<times> string) list option"
  body :: json

definition cors_headers :: "(string \<times> string) list" where
  "cors_headers = [(''Content-Type'', ''application/json''), (''Access-Control-Allow-Origin'', ''*'')]"

definition query_lambda_handler :: "clock \<Rightarrow> store_reader \<Rightarrow> exn + response" where
  "query_lambda_handler clk batch_get_item =
     (case get_todays_data_from_db clk batch_get_item of
        Inr result \<Rightarrow>
          Inr \<lparr>statusCode = 200, headers = Some cors_headers, body = JData result\<rparr>
      | Inl e \<Rightarrow>
          Inr \<lparr>statusCode = 500, headers = Some cors_headers,
               body = JObject [(''message'', JString (''Error processing request: '' @ exn_str e))]\<rparr>)"

section \<open>Digit strings: what \<open>str\<close> writes, \<open>int\<close> reads\<close>

lemma of_char_digit_char:
  "0 \<le> k \<Longrightarrow> k < 10 \<Longrightarrow> (of_char (digit_char k) :: int) = 48 + k"
  unfolding digit_char_def of_char_of by simp

lemma is_digit_digit_char: "0 \<le> k \<Longrightarrow> k < 10 \<Longrightarrow> is_digit (digit_char k)"
  by (simp add: is_digit_def of_char_digit_char)

lemma digit_val_digit_char: "0 \<le> k \<Longrightarrow> k < 10 \<Longrightarrow> digit_val (digit_char k) = k"
  by (simp add: digit_val_def of_char_digit_char)

lemma str_nat_small: "n < 10 \<Longrightarrow> str_nat n = [digit_char n]"
  by (subst str_nat.simps) simp

lemma str_nat_step: "10 \<le> n \<Longrightarrow> str_nat n = str_nat (n div 10) @ [digit_char (n mod 10)]"
  by (subst str_nat.simps) simp

lemma str_nat_digits: "0 \<le> n \<Longrightarrow> str_nat n \<noteq> [] \<and> list_all is_digit (str_nat n)"
proof (induction n rule: str_nat.induct)
  case (1 n)
  show ?case
  proof (cases "n < 10")
    case True
    with "1.prems" show ?thesis
      by (simp add: str_nat_small is_digit_digit_char)
  next
    case False
    then have "0 \<le> n div 10" by simp
    with False "1.IH" have "list_all is_digit (str_nat (n div 10))" by simp
    with False show ?thesis
      by (simp add: str_nat_step is_digit_digit_char)
  qed
qed

lemma py_int_digits:
  "s \<noteq> [] \<Longrightarrow> list_all is_digit s \<Longrightarrow> py_int s = Inr (int_of_digits s)"
proof -
  assume a: "s \<noteq> []" "list_all is_digit s"
  then obtain c ds where s: "s = c # ds" by (cases s) auto
  with a have "is_digit c" by simp
  then have "c \<noteq> CHR ''-''" by (auto simp: is_digit_def)
  with a s show ?thesis by (simp add: py_int_def)
qed

lemma py_int_take_str_int:
  assumes "0 < k"
  shows "\<exists>d. py_int (take (Suc k) (str_int dt)) = Inr d"
proof (cases "dt < 0")
  case False
  then have d: "str_nat dt \<noteq> []" "list_all is_digit (str_nat dt)"
    using str_nat_digits [of dt] by simp_all
  then have "take (Suc k) (str_nat dt) \<noteq> []" by (cases "str_nat dt") auto
  moreover have "list_all is_digit (take (Suc k) (str_nat dt))"
    using d(2) by (auto simp: list_all_iff dest: in_set_takeD)
  ultimately have "py_int (take (Suc k) (str_nat dt)) = Inr (int_of_digits (take (Suc k) (str_nat dt)))"
    by (rule py_int_digits)
  with False show ?thesis by (simp add: str_int_def)
next
  case True
  then have d: "str_nat (- dt) \<noteq> []" "list_all is_digit (str_nat (- dt))"
    using str_nat_digits [of "- dt"] by simp_all
  have all: "list_all is_digit (take k (str_nat (- dt)))"
    using d(2) by (auto simp: list_all_iff dest: in_set_takeD)
  have "take k (str_nat (- dt)) \<noteq> []"
    using d(1) assms by (cases "str_nat (- dt)"; cases k) auto
  with True all show ?thesis by (simp add: str_int_def py_int_def)
qed

lemma request_keys_total: "\<exists>ks. request_keys keys = Inr ks \<and> map fst ks = keys"
proof (induction keys)
  case Nil
  show ?case by simp
next
  case (Cons dt rest)
  obtain d where d: "py_int (take 8 (str_int dt)) = Inr d"
    using py_int_take_str_int [of 7 dt] by (auto simp: eval_nat_numeral)
  from Cons obtain ks where "request_keys rest = Inr ks" "map fst ks = rest" by blast
  with d show ?case by simp
qed

lemma convert_to_epoch_no_items:
  "Responses data = Some resp \<Longrightarrow> resp table_name = Some [] \<Longrightarrow>
   convert_to_epoch data = Inr (data\<lparr>Responses := Some (resp(table_name \<mapsto> []))\<rparr>)"
  by (simp add: convert_to_epoch_def)

lemma query_lambda_handler_no_items:
  assumes keys: "get_date_keys clk = Inr date_keys"
    and reply: "\<And>ks. batch_get_item ks = Inr \<lparr>Responses = Some [table_name \<mapsto> []]\<rparr>"
  shows "query_lambda_handler clk batch_get_item =
     Inr \<lparr>statusCode = 200, headers = Some cors_headers,
          body = JData \<lparr>Responses = Some [table_name \<mapsto> []]\<rparr>\<rparr>"
proof -
  obtain ks where ks: "request_keys date_keys = Inr ks"
    using request_keys_total [of date_keys] by blast
  have "get_todays_data_from_db clk batch_get_item = Inr \<lparr>Responses = Some [table_name \<mapsto> []]\<rparr>"
    by (simp add: get_todays_data_from_db_def keys ks reply convert_to_epoch_def)
  then show ?thesis by (simp add: query_lambda_handler_def)
qed

section \<open>The Query Service at a full hour\<close>

text \<open>
  A concrete invocation: every reading of the clock is 2024-01-02 10:00:00.
\<close>

definition now_1000 :: pydatetime where
  "now_1000 = \<lparr>year = 2024, month = 1, day = 2, hour = 10, minute = 0, second = 0, microsecond = 0\<rparr>"

definition keys_1000 :: "int list" where
  "keys_1000 =
     [
      20240101101500, 20240101103000, 20240101104500, 20240101110000,
      20240101111500, 20240101113000, 20240101114500, 20240101120000,
      20240101121500, 20240101123000, 20240101124500, 20240101130000,
      20240101131500, 20240101133000, 20240101134500, 20240101140000,
      20240101141500, 20240101143000, 20240101144500, 20240101150000,
      20240101151500, 20240101153000, 20240101154500, 20240101160000,
      20240101161500, 20240101163000, 20240101164500, 20240101170000,
      20240101171500, 20240101173000, 20240101174500, 20240101180000,
      20240101181500, 20240101183000, 20240101184500, 20240101190000,
      20240101191500, 20240101193000, 20240101194500, 20240101200000,
      20240101201500, 20240101203000, 20240101204500, 20240101210000,
      20240101211500, 20240101213000, 20240101214500, 20240101220000,
      20240101221500, 20240101223000, 20240101224500, 20240101230000,
      20240101231500, 20240101233000, 20240101234500, 20240102000000,
      20240102001500, 20240102003000, 20240102004500, 20240102010000,
      20240102011500, 20240102013000, 20240102014500, 20240102020000,
      20240102021500, 20240102023000, 20240102024500, 20240102030000,
      20240102031500, 20240102033000, 20240102034500, 20240102040000,
      20240102041500, 20240102043000, 20240102044500, 20240102050000,
      20240102051500, 20240102053000, 20240102054500, 20240102060000,
      20240102061500, 20240102063000, 20240102064500, 20240102070000,
      20240102071500, 20240102073000, 20240102074500, 20240102080000,
      20240102081500, 20240102083000, 20240102084500, 20240102090000,
      20240102091500, 20240102093000, 20240102094500, 20240102100000,
      20240102101500]"

lemma get_date_keys_1000: "get_date_keys (\<lambda>k. now_1000) = Inr keys_1000"
  by code_simp

text \<open>
  At 10:00:00 the rounded end of the window is 10:00:00 and the start is 10:00:00 of the
  day before. The loop steps before it emits and runs while the value before the step
  is not after the clock, so it emits 97 keys, from 10:15:00 of the day before to
  10:15:00 of the same day.
\<close>

lemma get_date_keys_at_full_hour:
  "get_date_keys (\<lambda>k. now_1000) = Inr keys_1000 \<and> length keys_1000 = 97 \<and>
   hd keys_1000 = 20240101101500 \<and> last keys_1000 = 20240102101500"
  by (simp add: get_date_keys_1000) (simp add: keys_1000_def)

text \<open>
  C2. The store answers the batch read with the table's entry present and no item in
  it, which is how it reports that none of the keys exists. The check of the source is
  for the presence of the entry only, so the handler answers 200 with an empty list of
  records, not 500.
\<close>

definition empty_store :: store_reader where
  "empty_store keys = Inr \<lparr>Responses = Some [table_name \<mapsto> []]\<rparr>"

theorem query_with_no_record_returns_200:
  "query_lambda_handler (\<lambda>k. now_1000) empty_store =
     Inr \<lparr>statusCode = 200, headers = Some cors_headers,
          body = JData \<lparr>Responses = Some [table_name \<mapsto> []]\<rparr>\<rparr>"
  by (rule query_lambda_handler_no_items [OF get_date_keys_1000]) (simp add: empty_store_def)

section \<open>The integer keys that \<open>strftime\<close> and \<open>int\<close> produce\<close>

lemma int_of_digits_snoc: "int_of_digits (s @ [c]) = 10 * int_of_digits s + digit_val c"
  by (simp add: int_of_digits_def)

lemma int_of_digits_append:
  "int_of_digits (a @ b) = int_of_digits a * 10 ^ length b + int_of_digits b"
proof (induction b rule: rev_induct)
  case Nil
  show ?case by (simp add: int_of_digits_def)
next
  case (snoc c b)
  have "int_of_digits (a @ b @ [c]) = 10 * int_of_digits (a @ b) + digit_val c"
    using int_of_digits_snoc [of "a @ b" c] by simp
  with snoc show ?case by (simp add: int_of_digits_snoc algebra_simps)
qed

lemma int_of_digits_str_nat: "0 \<le> n \<Longrightarrow> int_of_digits (str_nat n) = n"
proof (induction n rule: str_nat.induct)
  case (1 n)
  show ?case
  proof (cases "n < 10")
    case True
    with "1.prems" show ?thesis
      by (simp add: str_nat_small int_of_digits_def digit_val_digit_char)
  next
    case False
    then have "int_of_digits (str_nat (n div 10)) = n div 10" using "1.IH" by simp
    with False show ?thesis
      by (simp add: str_nat_step int_of_digits_snoc digit_val_digit_char)
  qed
qed

lemma int_of_digits_Cons:
  "int_of_digits (c # s) = digit_val c * 10 ^ length s + int_of_digits s"
  using int_of_digits_append [of "[c]" s] by (simp add: int_of_digits_def)

lemma digit_val_zero: "digit_val CHR ''0'' = 0"
  by (simp add: digit_val_def)

lemma int_of_digits_zeros: "int_of_digits (replicate k CHR ''0'' @ s) = int_of_digits s"
proof -
  have z: "int_of_digits (replicate k CHR ''0'') = 0"
  proof (induction k)
    case 0
    show ?case by (simp add: int_of_digits_def)
  next
    case (Suc k)
    then show ?case by (simp add: int_of_digits_Cons digit_val_zero)
  qed
  show ?thesis by (simp add: int_of_digits_append z)
qed

lemma zero_pad_digits:
  assumes "0 \<le> v"
  shows "zero_pad w v \<noteq> []" and "list_all is_digit (zero_pad w v)"
    and "int_of_digits (zero_pad w v) = v"
proof -
  have z: "is_digit CHR ''0''" by (simp add: is_digit_def)
  have s: "str_int v = str_nat v" using assms by (simp add: str_int_def)
  show "zero_pad w v \<noteq> []"
    using str_nat_digits [OF assms] by (simp add: zero_pad_def s Let_def)
  show "list_all is_digit (zero_pad w v)"
    using str_nat_digits [OF assms] z by (auto simp: zero_pad_def s Let_def list_all_iff)
  show "int_of_digits (zero_pad w v) = v"
    using int_of_digits_str_nat [OF assms] by (simp add: zero_pad_def s Let_def int_of_digits_zeros)
qed

lemma length_str_nat_2: "0 \<le> v \<Longrightarrow> v < 100 \<Longrightarrow> length (str_nat v) \<le> 2"
proof -
  assume a: "0 \<le> v" "v < 100"
  show ?thesis
  proof (cases "v < 10")
    case True
    then show ?thesis by (simp add: str_nat_small)
  next
    case False
    with a have "v div 10 < 10" by simp
    with False show ?thesis by (simp add: str_nat_step str_nat_small)
  qed
qed

lemma length_zero_pad_2: "0 \<le> v \<Longrightarrow> v < 100 \<Longrightarrow> length (zero_pad 2 v) = 2"
  using length_str_nat_2 [of v] by (simp add: zero_pad_def str_int_def Let_def)

text \<open>The integer that \<open>int(t.strftime("%Y%m%d%H%M%S"))\<close> is.\<close>

definition fields_ok :: "pydatetime \<Rightarrow> bool" where
  "fields_ok t = (0 \<le> year t \<and> 0 \<le> month t \<and> month t < 100 \<and> 0 \<le> day t \<and> day t < 100
     \<and> 0 \<le> hour t \<and> hour t < 100 \<and> 0 \<le> minute t \<and> minute t < 100
     \<and> 0 \<le> second t \<and> second t < 100)"

lemma py_int_strftime_YmdHMS:
  assumes "fields_ok t"
  shows "py_int (strftime t fmt_YmdHMS) =
     Inr (year t * 10000000000 + month t * 100000000 + day t * 1000000
          + hour t * 10000 + minute t * 100 + second t)"
proof -
  note f = assms [unfolded fields_ok_def]
  let ?s = "strftime t fmt_YmdHMS"
  have s: "?s = zero_pad 4 (year t) @ zero_pad 2 (month t) @ zero_pad 2 (day t)
      @ zero_pad 2 (hour t) @ zero_pad 2 (minute t) @ zero_pad 2 (second t)"
    by (simp add: strftime_def fmt_YmdHMS_def)
  have ne: "?s \<noteq> []" using zero_pad_digits(1) [of "year t" 4] f by (simp add: s)
  have dg: "list_all is_digit ?s"
    using f by (simp add: s zero_pad_digits(2))
  have "int_of_digits ?s = year t * 10000000000 + month t * 100000000 + day t * 1000000
          + hour t * 10000 + minute t * 100 + second t"
    using f by (simp add: s int_of_digits_append zero_pad_digits(3) length_zero_pad_2)
  with py_int_digits [OF ne dg] show ?thesis by simp
qed

section \<open>Generated keys lie on quarter hours\<close>

text \<open>
  \<open>on_quarter t\<close>: the time of day of \<open>t\<close> is a whole number of quarter hours.
  \<open>key_aligned k\<close>: the seconds field of the integer \<open>k\<close> is 00 and its minutes field
  is 00, 15, 30 or 45.
\<close>

definition on_quarter :: "pydatetime \<Rightarrow> bool" where
  "on_quarter t = (900 dvd hour t * 3600 + minute t * 60 + second t)"

definition key_aligned :: "int \<Rightarrow> bool" where
  "key_aligned k = (k mod 100 = 0 \<and> k div 100 mod 100 \<in> {0, 15, 30, 45})"

lemma quarter_fields:
  fixes secs :: int
  assumes "900 dvd secs" "0 \<le> secs"
  shows "secs mod 3600 mod 60 = 0" and "secs mod 3600 div 60 \<in> {0, 15, 30, 45}"
proof -
  define r where "r = secs mod 3600"
  have r: "0 \<le> r" "r < 3600" by (simp_all add: r_def)
  have "900 dvd r" unfolding r_def using assms(1) by (simp add: dvd_mod)
  then obtain j where j: "r = 900 * j" by (auto simp: dvd_def)
  with r have "j = 0 \<or> j = 1 \<or> j = 2 \<or> j = 3" by arith
  with j show "secs mod 3600 mod 60 = 0" and "secs mod 3600 div 60 \<in> {0, 15, 30, 45}"
    unfolding r_def [symmetric] by auto
qed

lemma dt_add_fields:
  assumes "dt_add t delta = Inr s"
  shows "hour s = (total_seconds t + delta) mod 86400 div 3600"
    and "minute s = (total_seconds t + delta) mod 86400 mod 3600 div 60"
    and "second s = (total_seconds t + delta) mod 86400 mod 3600 mod 60"
  using assms unfolding dt_add_def Let_def
  by (auto split: if_splits prod.splits)

lemma dt_add_fields_ok:
  assumes "dt_add t delta = Inr s"
  shows "fields_ok s"
proof -
  define secs where "secs = (total_seconds t + delta) mod 86400"
  have b: "0 \<le> secs" "secs < 86400" by (simp_all add: secs_def)
  have hs: "hour s = secs div 3600"
    using dt_add_fields(1) [OF assms] by (simp add: secs_def)
  have "0 \<le> secs div 3600" using b by (simp add: pos_imp_zdiv_nonneg_iff)
  moreover have "secs div 3600 < 100" using b by arith
  ultimately have h: "0 \<le> hour s" "hour s < 100" by (simp_all add: hs)
  have ms: "minute s = secs mod 3600 div 60"
    using dt_add_fields(2) [OF assms] by (simp add: secs_def)
  have r: "0 \<le> secs mod 3600" "secs mod 3600 < 3600" by simp_all
  have "0 \<le> secs mod 3600 div 60" using r by (simp add: pos_imp_zdiv_nonneg_iff)
  moreover have "secs mod 3600 div 60 < 100" using r by arith
  ultimately have m: "0 \<le> minute s" "minute s < 100" by (simp_all add: ms)
  have ss: "second s = secs mod 3600 mod 60"
    using dt_add_fields(3) [OF assms] by (simp add: secs_def)
  have "0 \<le> secs mod 3600 mod 60" "secs mod 3600 mod 60 < 60" by simp_all
  then have sc: "0 \<le> second s" "second s < 100" by (simp_all add: ss)
  have v: "valid_date (year s) (month s) (day s)" by (rule dt_add_total_seconds(3) [OF assms])
  then have d31: "day s \<le> 31"
  proof -
    from v have mm: "1 \<le> month s" "month s \<le> 12" by (simp_all add: valid_date_def)
    then have "month s = 1 \<or> month s = 2 \<or> month s = 3 \<or> month s = 4 \<or> month s = 5
      \<or> month s = 6 \<or> month s = 7 \<or> month s = 8 \<or> month s = 9 \<or> month s = 10
      \<or> month s = 11 \<or> month s = 12" by arith
    then have "days_in_month (year s) (month s) \<le> 31"
      by (auto simp: days_in_month_def DAYS_IN_MONTH_def)
    with v show ?thesis by (simp add: valid_date_def)
  qed
  from v d31 h m sc show ?thesis by (simp add: fields_ok_def valid_date_def)
qed

lemma dt_add_on_quarter:
  assumes "dt_add t delta = Inr s" "on_quarter t" "900 dvd delta"
  shows "on_quarter s" and "second s = 0" and "minute s \<in> {0, 15, 30, 45}"
proof -
  define total where "total = total_seconds t + delta"
  define secs where "secs = total mod 86400"
  have "total = toordinal t * 86400 + (hour t * 3600 + minute t * 60 + second t) + delta"
    by (simp add: total_def total_seconds_def)
  moreover have "(900::int) dvd toordinal t * 86400" by simp
  ultimately have "900 dvd total"
    using assms(2,3) unfolding on_quarter_def by (simp add: dvd_add)
  then have q: "900 dvd secs" unfolding secs_def by (simp add: dvd_mod)
  have nn: "0 \<le> secs" by (simp add: secs_def)
  note f = dt_add_fields [OF assms(1), folded total_def, folded secs_def]
  show "second s = 0" and "minute s \<in> {0, 15, 30, 45}"
    using quarter_fields [OF q nn] f by simp_all
  have "hour s * 3600 + minute s * 60 + second s = secs"
    using time_of_day_recompose [of secs] f by simp
  with q show "on_quarter s" by (simp add: on_quarter_def)
qed

lemma key_of_aligned:
  assumes "fields_ok s" "second s = 0" "minute s \<in> {0, 15, 30, 45}"
    and "py_int (strftime s fmt_YmdHMS) = Inr key"
  shows "key_aligned key"
proof -
  let ?hi = "year s * 100000000 + month s * 1000000 + day s * 10000 + hour s * 100"
  have "key = (?hi + minute s) * 100 + second s"
    using py_int_strftime_YmdHMS [OF assms(1)] assms(4) by simp
  with assms(2) have k: "key = (?hi + minute s) * 100" by simp
  have m: "0 \<le> minute s" "minute s < 100" using assms(1) by (simp_all add: fields_ok_def)
  have "key mod 100 = 0" by (simp add: k)
  moreover have "key div 100 = ?hi + minute s" by (simp add: k)
  moreover have "(?hi + minute s) mod 100 = minute s"
    by (rule divmod_int_unique(2) [where q = "year s * 1000000 + month s * 10000 + day s * 100 + hour s"])
       (use m in simp_all)
  ultimately show ?thesis using assms(3) by (simp add: key_aligned_def)
qed

lemma date_keys_loop_aligned:
  assumes "date_keys_loop clk k start_range date_keys = Inr keys"
    and "on_quarter start_range" and "list_all key_aligned date_keys"
  shows "list_all key_aligned keys"
  using assms
proof (induction clk k start_range date_keys rule: date_keys_loop.induct)
  case (1 clk k start_range date_keys)
  show ?case
  proof (cases "dt_le start_range (clk k)")
    case False
    with "1.prems" show ?thesis by (simp add: date_keys_loop.simps [of clk k start_range])
  next
    case True
    from "1.prems"(1) True obtain s key where
      s: "dt_add start_range (td_minutes 15) = Inr s"
      and key: "py_int (strftime s fmt_YmdHMS) = Inr key"
      and rest: "date_keys_loop clk (Suc k) s (date_keys @ [key]) = Inr keys"
      by (subst (asm) date_keys_loop.simps) (auto split: sum.splits)
    have q: "on_quarter s" "second s = 0" "minute s \<in> {0, 15, 30, 45}"
      using dt_add_on_quarter [OF s "1.prems"(2)] by (simp_all add: td_minutes_def)
    have "key_aligned key"
      by (rule key_of_aligned [OF dt_add_fields_ok [OF s] q(2,3) key])
    with "1.prems"(3) have "list_all key_aligned (date_keys @ [key])" by simp
    with "1.IH" [OF True s key rest q(1)] show ?thesis .
  qed
qed

lemma get_date_keys_aligned:
  assumes "get_date_keys clk = Inr keys"
  shows "list_all key_aligned keys"
proof -
  from assms obtain end_range start_range where
    e: "hour_rounder (clk 0) = Inr end_range"
    and s: "dt_sub end_range (td_hours 24) = Inr start_range"
    and l: "date_keys_loop clk 1 start_range [] = Inr keys"
    by (auto simp: get_date_keys_def split: sum.splits)
  let ?t = "(clk 0)\<lparr>second := 0, microsecond := 0, minute := 0, hour := hour (clk 0)\<rparr>"
  have "on_quarter ?t" by (simp add: on_quarter_def)
  moreover have "(900::int) dvd td_hours (minute (clk 0) div 30)" by (simp add: td_hours_def)
  ultimately have "on_quarter end_range"
    using dt_add_on_quarter(1) [of ?t _ end_range] e by (simp add: hour_rounder_def)
  moreover have "(900::int) dvd - td_hours 24" by (simp add: td_hours_def)
  ultimately have "on_quarter start_range"
    using dt_add_on_quarter(1) [of end_range _ start_range] s by (simp add: dt_sub_def)
  with l show ?thesis by (rule date_keys_loop_aligned) simp
qed

text \<open>
  C10. Every key that the key generation of the Query Service returns is aligned to a
  quarter hour, whatever the clock reads: its seconds field (the last two digits) is 00
  and its minutes field (the two digits before) is 00, 15, 30 or 45.
\<close>

theorem date_keys_quarter_aligned:
  assumes "get_date_keys clk = Inr keys" and "k \<in> set keys"
  shows "k mod 100 = 0 \<and> k div 100 mod 100 \<in> {0, 15, 30, 45}"
  using get_date_keys_aligned [OF assms(1)] assms(2)
  by (auto simp: list_all_iff key_aligned_def)

theorem date_keys_quarter_aligned_witness:
  "get_date_keys (\<lambda>k. now_1000) = Inr keys_1000 \<and> 20240101101500 \<in> set keys_1000 \<and>
   (20240101101500 :: int) mod 100 = 0 \<and> (20240101101500 :: int) div 100 mod 100 = 15"
  using date_keys_quarter_aligned [OF get_date_keys_1000, of 20240101101500]
  by (simp add: get_date_keys_1000) (simp add: keys_1000_def)

section \<open>The Query Service with a full store\<close>

text \<open>
  \<open>full_store\<close> answers every key of the request with a record; \<open>stored_1000\<close> are
  the records it returns for the keys above, \<open>records_1000\<close> the same records with
  their \<open>datetime\<close> as epoch seconds.
\<close>

definition full_store :: store_reader where
  "full_store keys =
     Inr \<lparr>Responses = Some [table_name \<mapsto>
            map (\<lambda>(dt, d). \<lparr>datetime = dt, date = d, flows = []\<rparr>) keys]\<rparr>"

definition records_1000 :: "item list" where
  "records_1000 = map (\<lambda>(e, d). \<lparr>datetime = e, date = d, flows = []\<rparr>)
     [
      (1704104100, 20240101), (1704105000, 20240101), (1704105900, 20240101),
      (1704106800, 20240101), (1704107700, 20240101), (1704108600, 20240101),
      (1704109500, 20240101), (1704110400, 20240101), (1704111300, 20240101),
      (1704112200, 20240101), (1704113100, 20240101), (1704114000, 20240101),
      (1704114900, 20240101), (1704115800, 20240101), (1704116700, 20240101),
      (1704117600, 20240101), (1704118500, 20240101), (1704119400, 20240101),
      (1704120300, 20240101), (1704121200, 20240101), (1704122100, 20240101),
      (1704123000, 20240101), (1704123900, 20240101), (1704124800, 20240101),
      (1704125700, 20240101), (1704126600, 20240101), (1704127500, 20240101),
      (1704128400, 20240101), (1704129300, 20240101), (1704130200, 20240101),
      (1704131100, 20240101), (1704132000, 20240101), (1704132900, 20240101),
      (1704133800, 20240101), (1704134700, 20240101), (1704135600, 20240101),
      (1704136500, 20240101), (1704137400, 20240101), (1704138300, 20240101),
      (1704139200, 20240101), (1704140100, 20240101), (1704141000, 20240101),
      (1704141900, 20240101), (1704142800, 20240101), (1704143700, 20240101),
      (1704144600, 20240101), (1704145500, 20240101), (1704146400, 20240101),
      (1704147300, 20240101), (1704148200, 20240101), (1704149100, 20240101),
      (1704150000, 20240101), (1704150900, 20240101), (1704151800, 20240101),
      (1704152700, 20240101), (1704153600, 20240102), (1704154500, 20240102),
      (1704155400, 20240102), (1704156300, 20240102), (1704157200, 20240102),
      (1704158100, 20240102), (1704159000, 20240102), (1704159900, 20240102),
      (1704160800, 20240102), (1704161700, 20240102), (1704162600, 20240102),
      (1704163500, 20240102), (1704164400, 20240102), (1704165300, 20240102),
      (1704166200, 20240102), (1704167100, 20240102), (1704168000, 20240102),
      (1704168900, 20240102), (1704169800, 20240102), (1704170700, 20240102),
      (1704171600, 20240102), (1704172500, 20240102), (1704173400, 20240102),
      (1704174300, 20240102), (1704175200, 20240102), (1704176100, 20240102),
      (1704177000, 20240102), (1704177900, 20240102), (1704178800, 20240102),
      (1704179700, 20240102), (1704180600, 20240102), (1704181500, 20240102),
      (1704182400, 20240102), (1704183300, 20240102), (1704184200, 20240102),
      (1704185100, 20240102), (1704186000, 20240102), (1704186900, 20240102),
      (1704187800, 20240102), (1704188700, 20240102), (1704189600, 20240102),
      (1704190500, 20240102)]"

definition stored_1000 :: "item list" where
  "stored_1000 = map (\<lambda>dt. \<lparr>datetime = dt, date = dt div 1000000, flows = []\<rparr>) keys_1000"

lemma request_keys_1000:
  "request_keys keys_1000 = Inr (map (\<lambda>dt. (dt, dt div 1000000)) keys_1000)"
  by code_simp

lemma full_store_1000:
  "full_store (map (\<lambda>dt. (dt, dt div 1000000)) keys_1000)
   = Inr \<lparr>Responses = Some [table_name \<mapsto> stored_1000]\<rparr>"
  by (simp add: full_store_def stored_1000_def comp_def)

lemma sorted_1000: "sort_key datetime stored_1000 = stored_1000"
  by code_simp

lemma convert_items_1000: "convert_items stored_1000 = Inr records_1000"
  by code_simp

lemma get_todays_data_1000:
  "get_todays_data_from_db (\<lambda>k. now_1000) full_store =
     Inr \<lparr>Responses = Some [table_name \<mapsto> records_1000]\<rparr>"
proof -
  have conv: "convert_to_epoch \<lparr>Responses = Some [table_name \<mapsto> stored_1000]\<rparr>
      = Inr \<lparr>Responses = Some [table_name \<mapsto> records_1000]\<rparr>"
    by (simp add: convert_to_epoch_def convert_items_1000)
  show ?thesis
    unfolding get_todays_data_from_db_def
    by (simp add: get_date_keys_1000 request_keys_1000 full_store_1000 sorted_1000 conv)
qed

text \<open>
  C5. The same invocation with a store that holds a record for every key it is asked
  for (the ingestion writes records up to two hours ahead). The handler answers 200
  with 97 records, one more than 96, and the last record is stamped 10:15:00, a quarter
  of an hour after the clock (epoch 1704190500 against 1704189600): it does not lie in
  the last 24 hours.
\<close>

theorem query_at_full_hour_returns_97_records:
  "query_lambda_handler (\<lambda>k. now_1000) full_store =
     Inr \<lparr>statusCode = 200, headers = Some cors_headers,
          body = JData \<lparr>Responses = Some [table_name \<mapsto> records_1000]\<rparr>\<rparr>
   \<and> length records_1000 = 97
   \<and> datetime (last records_1000) = 1704190500
   \<and> timegm now_1000 = 1704189600"
proof (intro conjI)
  show "query_lambda_handler (\<lambda>k. now_1000) full_store =
     Inr \<lparr>statusCode = 200, headers = Some cors_headers,
          body = JData \<lparr>Responses = Some [table_name \<mapsto> records_1000]\<rparr>\<rparr>"
    by (simp add: query_lambda_handler_def get_todays_data_1000)
  show "length records_1000 = 97" by (simp add: records_1000_def)
  show "datetime (last records_1000) = 1704190500" by (simp add: records_1000_def)
  show "timegm now_1000 = 1704189600" by code_simp
qed

section \<open>The Ingestion Job\<close>

text \<open>
  A cell of a pandas column is a float64: a finite number or one of the three special
  values. A series is a list of (timestamp, value) pairs, a frame a list of rows, each
  a timestamp of the index and one cell per column.
\<close>

datatype float64 = Finite real | PosInf | NegInf | NaN

type_synonym series = "(pydatetime \<times> float64) list"
type_synonym 'v frame = "(pydatetime \<times> (string \<times> 'v) list) list"
type_synonym int64 = "64 word"

text \<open>
  What the job calls outside this repository: the remote API
  (\<open>client.query_crossborder_flows\<close>, which returns a series or raises) and the two
  pandas operations on whole series, the aligned difference of two series and
  \<open>pd.concat(..., axis=1).ffill()\<close>. They are parameters of the model.
\<close>

record services =
  query_crossborder_flows :: "string \<Rightarrow> string \<Rightarrow> pydatetime \<Rightarrow> pydatetime \<Rightarrow> exn + series"
  series_sub :: "series \<Rightarrow> series \<Rightarrow> series"
  concat_ffill :: "(string \<times> series) list \<Rightarrow> float64 frame"

definition uk_country_code :: string where
  "uk_country_code = ''10YGB----------A''"

definition country_code_non_uk_dict :: "(string \<times> string) list" where
  "country_code_non_uk_dict =
     [(''France'', ''10YFR-RTE------C''),
      (''Netherlands'', ''10YNL----------L''),
      (''Belgium'', ''10YBE----------2''),
      (''Norway'', ''10YNO-0--------C'')]"

text \<open>
  \<open>get_date_range\<close> reads the clock twice, starting at reading \<open>k\<close>; the two
  \<open>strftime\<close> calls drop the microseconds.
\<close>

definition get_date_range :: "clock \<Rightarrow> nat \<Rightarrow> exn + pydatetime \<times> pydatetime" where
  "get_date_range clk k =
     (case dt_sub (clk k) (td_days 1) of
        Inl e \<Rightarrow> Inl e
      | Inr twenty_four_hours \<Rightarrow>
          (case dt_add (clk (Suc k)) (td_hours 2) of
             Inl e \<Rightarrow> Inl e
           | Inr tomorrow \<Rightarrow>
               Inr (twenty_four_hours\<lparr>microsecond := 0\<rparr>, tomorrow\<lparr>microsecond := 0\<rparr>)))"

text \<open>
  The handler of \<open>get_net_flow\<close> for an HTTP error prints \<open>e.response.content\<close> before
  it re-raises; with no response attached that read raises \<open>AttributeError\<close>, which
  takes the place of the HTTP error. Every other exception is re-raised as it is.
\<close>

fun reraise :: "exn \<Rightarrow> exn" where
  "reraise (HTTPError msg None) = AttributeError ''NoneType object has no attribute content''"
| "reraise e = e"

definition get_net_flow :: "services \<Rightarrow> pydatetime \<times> pydatetime \<Rightarrow> string \<Rightarrow> exn + series" where
  "get_net_flow env start_end_range country_code =
     (case query_crossborder_flows env uk_country_code country_code
             (fst start_end_range) (snd start_end_range) of
        Inl e \<Rightarrow> Inl (reraise e)
      | Inr flows_outward_from_uk \<Rightarrow>
          (case query_crossborder_flows env country_code uk_country_code
                  (fst start_end_range) (snd start_end_range) of
             Inl e \<Rightarrow> Inl (reraise e)
           | Inr flows_inward_to_uk \<Rightarrow>
               Inr (series_sub env flows_outward_from_uk flows_inward_to_uk)))"

fun collect_flows :: "services \<Rightarrow> pydatetime \<times> pydatetime \<Rightarrow> (string \<times> string) list
    \<Rightarrow> exn + (string \<times> series) list" where
  "collect_flows env date_range [] = Inr []"
| "collect_flows env date_range ((country, code) # rest) =
     (case get_net_flow env date_range code of
        Inl e \<Rightarrow> Inl e
      | Inr flow \<Rightarrow>
          (case collect_flows env date_range rest of
             Inl e \<Rightarrow> Inl e
           | Inr collected \<Rightarrow> Inr ((country, flow) # collected)))"

definition get_all_interconnector_flows ::
    "services \<Rightarrow> clock \<Rightarrow> nat \<Rightarrow> (string \<times> string) list \<Rightarrow> exn + float64 frame" where
  "get_all_interconnector_flows env clk k country_codes =
     (case get_date_range clk k of
        Inl e \<Rightarrow> Inl e
      | Inr date_range \<Rightarrow>
          (case collect_flows env date_range country_codes of
             Inl e \<Rightarrow> Inl e
           | Inr all_interconnector_dict \<Rightarrow> Inr (concat_ffill env all_interconnector_dict)))"

subsection \<open>Sanitization\<close>

text \<open>
  \<open>convert_float_to_int\<close> works cell by cell: infinities become NaN, NaN becomes 0,
  and \<open>astype(int)\<close> casts to int64. The cast refuses NaN and infinities; it truncates
  a finite value toward zero when the result fits int64, and gives the most negative
  int64 otherwise (the result of the conversion instruction of x86-64 for a value out
  of range).
\<close>

definition replace_inf :: "float64 \<Rightarrow> float64" where
  "replace_inf v = (case v of PosInf \<Rightarrow> NaN | NegInf \<Rightarrow> NaN | _ \<Rightarrow> v)"

definition fillna_zero :: "float64 \<Rightarrow> float64" where
  "fillna_zero v = (case v of NaN \<Rightarrow> Finite 0 | _ \<Rightarrow> v)"

definition truncate_real :: "real \<Rightarrow> int" where
  "truncate_real x = (if 0 \<le> x then \<lfloor>x\<rfloor> else \<lceil>x\<rceil>)"

definition astype_int :: "float64 \<Rightarrow> exn + int64" where
  "astype_int v =
     (case v of
        Finite x \<Rightarrow>
          Inr (if - (2 ^ 63) \<le> truncate_real x \<and> truncate_real x < 2 ^ 63
               then word_of_int (truncate_real x)
               else word_of_int (- (2 ^ 63)))
      | _ \<Rightarrow> Inl (ValueError ''Cannot convert non-finite values (NA or inf) to integer''))"

definition map_frame :: "('a \<Rightarrow> 'b) \<Rightarrow> 'a frame \<Rightarrow> 'b frame" where
  "map_frame f df = map (\<lambda>(t, cells). (t, map (\<lambda>(c, v). (c, f v)) cells)) df"

fun astype_cells :: "(string \<times> float64) list \<Rightarrow> exn + (string \<times> int64) list" where
  "astype_cells [] = Inr []"
| "astype_cells ((c, v) # rest) =
     (case astype_int v of
        Inl e \<Rightarrow> Inl e
      | Inr w \<Rightarrow> (case astype_cells rest of Inl e \<Rightarrow> Inl e | Inr ws \<Rightarrow> Inr ((c, w) # ws)))"

fun astype_frame :: "float64 frame \<Rightarrow> exn + int64 frame" where
  "astype_frame [] = Inr []"
| "astype_frame ((t, cells) # rest) =
     (case astype_cells cells of
        Inl e \<Rightarrow> Inl e
      | Inr ws \<Rightarrow> (case astype_frame rest of Inl e \<Rightarrow> Inl e | Inr rows \<Rightarrow> Inr ((t, ws) # rows)))"

definition convert_float_to_int :: "float64 frame \<Rightarrow> exn + int64 frame" where
  "convert_float_to_int interconnector_flow_df =
     astype_frame (map_frame fillna_zero (map_frame replace_inf interconnector_flow_df))"

subsection \<open>Keys, records and the handler\<close>

fun convert_df_datetime_to_strftime ::
    "int64 frame \<Rightarrow> exn + (int \<times> int \<times> (string \<times> int64) list) list" where
  "convert_df_datetime_to_strftime [] = Inr []"
| "convert_df_datetime_to_strftime ((x, cells) # rest) =
     (case py_int (strftime x fmt_Ymd) of
        Inl e \<Rightarrow> Inl e
      | Inr d \<Rightarrow>
          (case py_int (strftime x fmt_YmdHMS) of
             Inl e \<Rightarrow> Inl e
           | Inr dt \<Rightarrow>
               (case convert_df_datetime_to_strftime rest of
                  Inl e \<Rightarrow> Inl e
                | Inr rows \<Rightarrow> Inr ((dt, d, cells) # rows))))"

definition convert_df_to_json :: "(int \<times> int \<times> (string \<times> int64) list) list \<Rightarrow> item list" where
  "convert_df_to_json df =
     map (\<lambda>(dt, d, cells). \<lparr>datetime = dt, date = d, flows = map (\<lambda>(c, w). (c, sint w)) cells\<rparr>) df"

text \<open>
  The body of the handler's \<open>try\<close>: it either raises or leaves the updated table.
\<close>

definition ingest_run :: "services \<Rightarrow> clock \<Rightarrow> table \<Rightarrow> exn + table" where
  "ingest_run env clk tbl =
     (case get_date_range clk 0 of
        Inl e \<Rightarrow> Inl e
      | Inr date_range \<Rightarrow>
          (case get_all_interconnector_flows env clk 2 country_code_non_uk_dict of
             Inl e \<Rightarrow> Inl e
           | Inr df \<Rightarrow>
               (case convert_float_to_int df of
                  Inl e \<Rightarrow> Inl e
                | Inr df_int \<Rightarrow>
                    (case convert_df_datetime_to_strftime df_int of
                       Inl e \<Rightarrow> Inl e
                     | Inr df_keys \<Rightarrow> Inr (update_dynamo_db tbl (convert_df_to_json df_keys))))))"

definition auth_failed_body :: "string \<Rightarrow> json" where
  "auth_failed_body details =
     JObject
       [(''error'', JString ''API Authentication Failed''),
        (''details'', JString details),
        (''possible_causes'',
           JArray [JString ''API key not correctly set in SSM'',
                   JString ''API key expired or invalid'',
                   JString ''IP address blocked'',
                   JString ''Request parameters invalid''])]"

text \<open>
  \<open>lambda_handler\<close> of the ingestion: the result is what the invocation returns or
  raises, together with the table it leaves. Only \<open>requests.exceptions.HTTPError\<close> is
  caught; reading the status of an HTTP error without a response raises.
\<close>

definition ingest_lambda_handler :: "services \<Rightarrow> clock \<Rightarrow> table \<Rightarrow> (exn + response) \<times> table" where
  "ingest_lambda_handler env clk tbl =
     (case ingest_run env clk tbl of
        Inr tbl' \<Rightarrow>
          (Inr \<lparr>statusCode = 200, headers = None, body = JString ''Everything works!''\<rparr>, tbl')
      | Inl (HTTPError msg resp) \<Rightarrow>
          (case resp of
             None \<Rightarrow> (Inl (AttributeError ''NoneType object has no attribute status_code''), tbl)
           | Some status_code \<Rightarrow>
               (Inr \<lparr>statusCode = 500, headers = None,
                     body = (if status_code = 403 then auth_failed_body msg
                             else JObject [(''error'', JString msg)])\<rparr>, tbl))
      | Inl e \<Rightarrow> (Inl e, tbl))"

section \<open>Sanitization never fails\<close>

definition in_int64 :: "int \<Rightarrow> bool" where
  "in_int64 n = (- (2 ^ 63) \<le> n \<and> n < 2 ^ 63)"

definition cell_sanitized :: "string \<times> float64 \<Rightarrow> string \<times> int64 \<Rightarrow> bool" where
  "cell_sanitized a b =
     (fst b = fst a \<and>
      (case snd a of
         Finite x \<Rightarrow> in_int64 (truncate_real x) \<longrightarrow> sint (snd b) = truncate_real x
       | _ \<Rightarrow> snd b = 0))"

definition row_sanitized ::
    "pydatetime \<times> (string \<times> float64) list \<Rightarrow> pydatetime \<times> (string \<times> int64) list \<Rightarrow> bool" where
  "row_sanitized a b = (fst b = fst a \<and> list_all2 cell_sanitized (snd a) (snd b))"

lemma sint_word_of_int_64:
  assumes "in_int64 n"
  shows "sint (word_of_int n :: int64) = n"
proof -
  from assms have "signed_take_bit 63 n = n"
    unfolding in_int64_def by (intro signed_take_bit_int_eq_self) simp_all
  then show ?thesis by (simp add: sint_sbintrunc')
qed

lemma astype_int_sanitized:
  "\<exists>w. astype_int (fillna_zero (replace_inf v)) = Inr w \<and> cell_sanitized (c, v) (c, w)"
proof (cases v)
  case (Finite x)
  show ?thesis
  proof (cases "in_int64 (truncate_real x)")
    case True
    then have "astype_int (Finite x) = Inr (word_of_int (truncate_real x))"
      by (simp add: astype_int_def in_int64_def)
    with True Finite show ?thesis
      by (simp add: fillna_zero_def replace_inf_def cell_sanitized_def sint_word_of_int_64)
  next
    case False
    have "\<exists>w. astype_int (Finite x) = Inr w"
      by (simp add: astype_int_def)
    with False Finite show ?thesis
      by (auto simp add: fillna_zero_def replace_inf_def cell_sanitized_def)
  qed
next
  case PosInf
  then show ?thesis
    by (simp add: astype_int_def fillna_zero_def replace_inf_def cell_sanitized_def truncate_real_def)
next
  case NegInf
  then show ?thesis
    by (simp add: astype_int_def fillna_zero_def replace_inf_def cell_sanitized_def truncate_real_def)
next
  case NaN
  then show ?thesis
    by (simp add: astype_int_def fillna_zero_def replace_inf_def cell_sanitized_def truncate_real_def)
qed

lemma astype_cells_sanitized:
  "\<exists>ws. astype_cells (map (\<lambda>(c, v). (c, fillna_zero (replace_inf v))) cells) = Inr ws
        \<and> list_all2 cell_sanitized cells ws"
proof (induction cells)
  case Nil
  show ?case by simp
next
  case (Cons a cells)
  obtain c v where a: "a = (c, v)" by (cases a)
  from astype_int_sanitized [of v c] obtain w
    where w: "astype_int (fillna_zero (replace_inf v)) = Inr w" "cell_sanitized (c, v) (c, w)"
    by blast
  from Cons.IH obtain ws
    where ws: "astype_cells (map (\<lambda>(c, v). (c, fillna_zero (replace_inf v))) cells) = Inr ws"
      "list_all2 cell_sanitized cells ws"
    by blast
  show ?case using w ws by (simp add: a)
qed

lemma map_frame_comp: "map_frame f (map_frame g df) = map_frame (\<lambda>v. f (g v)) df"
  by (simp add: map_frame_def comp_def case_prod_beta)

lemma astype_frame_sanitized:
  "\<exists>out. astype_frame (map_frame (\<lambda>v. fillna_zero (replace_inf v)) df) = Inr out
         \<and> list_all2 row_sanitized df out"
proof (induction df)
  case Nil
  show ?case by (simp add: map_frame_def)
next
  case (Cons a df)
  obtain t cells where a: "a = (t, cells)" by (cases a)
  from astype_cells_sanitized [of cells] obtain ws
    where ws: "astype_cells (map (\<lambda>(c, v). (c, fillna_zero (replace_inf v))) cells) = Inr ws"
      "list_all2 cell_sanitized cells ws"
    by blast
  from Cons.IH obtain out
    where out: "astype_frame (map_frame (\<lambda>v. fillna_zero (replace_inf v)) df) = Inr out"
      "list_all2 row_sanitized df out"
    by blast
  from ws(2) have row: "row_sanitized (t, cells) (t, ws)" by (simp add: row_sanitized_def)
  from out(1) have out': "astype_frame
       (map (\<lambda>(t, cells). (t, map (\<lambda>(c, v). (c, fillna_zero (replace_inf v))) cells)) df) = Inr out"
    by (simp add: map_frame_def)
  show ?case using ws(1) out' out(2) row by (simp add: a map_frame_def)
qed

definition frame_0 :: "float64 frame" where
  "frame_0 =
     [(now_1000,
       [(''France'', NaN), (''Netherlands'', PosInf), (''Belgium'', NegInf),
        (''Norway'', Finite (79 / 10))]),
      (now_1000\<lparr>minute := 15\<rparr>,
       [(''France'', Finite (- (79 / 10))), (''Netherlands'', Finite 1028),
        (''Belgium'', Finite 0), (''Norway'', Finite (- 250))])]"

definition frame_0_int :: "int64 frame" where
  "frame_0_int =
     [(now_1000, [(''France'', 0), (''Netherlands'', 0), (''Belgium'', 0), (''Norway'', 7)]),
      (now_1000\<lparr>minute := 15\<rparr>,
       [(''France'', - 7), (''Netherlands'', 1028), (''Belgium'', 0), (''Norway'', - 250)])]"

lemma truncate_real_examples:
  "truncate_real (79 / 10) = 7" "truncate_real (- (79 / 10)) = - 7"
  "truncate_real 1028 = 1028" "truncate_real 0 = 0" "truncate_real (- 250) = - 250"
  by (simp_all add: truncate_real_def)

lemma convert_float_to_int_frame_0: "convert_float_to_int frame_0 = Inr frame_0_int"
  by (simp add: convert_float_to_int_def frame_0_def frame_0_int_def map_frame_def
      replace_inf_def fillna_zero_def astype_int_def truncate_real_examples)

text \<open>
  C4. Sanitization never fails and keeps the shape of the frame, its index and its
  column names. A NaN or infinite cell becomes 0; a finite cell becomes its value
  truncated toward zero, provided that the truncated value is an int64.
\<close>

theorem convert_float_to_int_truncates:
  "\<exists>out. convert_float_to_int df = Inr out \<and> list_all2 row_sanitized df out"
  unfolding convert_float_to_int_def map_frame_comp by (rule astype_frame_sanitized)

theorem convert_float_to_int_truncates_witness:
  "convert_float_to_int frame_0 = Inr frame_0_int \<and> list_all2 row_sanitized frame_0 frame_0_int
   \<and> in_int64 (truncate_real (79 / 10)) \<and> sint (7 :: int64) = truncate_real (79 / 10)
   \<and> in_int64 (truncate_real (- (79 / 10))) \<and> sint (- 7 :: int64) = truncate_real (- (79 / 10))"
  using convert_float_to_int_truncates [of frame_0]
  by (simp add: convert_float_to_int_frame_0 truncate_real_examples in_int64_def)

text \<open>
  A finite cell of value \<open>2\<^sup>6\<^sup>3\<close> is its own truncation; the cast gives \<open>- 2\<^sup>6\<^sup>3\<close>.
\<close>

theorem convert_float_to_int_out_of_range:
  "convert_float_to_int [(now_1000, [(''France'', Finite 9223372036854775808)])] =
     Inr [(now_1000, [(''France'', word_of_int (- 9223372036854775808))])]
   \<and> sint (word_of_int (- 9223372036854775808) :: int64) = - 9223372036854775808
   \<and> truncate_real 9223372036854775808 = 9223372036854775808"
  by (simp add: convert_float_to_int_def map_frame_def replace_inf_def fillna_zero_def
      astype_int_def truncate_real_def sint_word_of_int_64 in_int64_def)

section \<open>Failures of the remote API\<close>

text \<open>
  The run makes its queries in the order of the configured countries, for each the
  outward query and then the inward one, and stops at the first that raises.
  \<open>first_failure env r before code e\<close>: every query for the countries \<open>before\<close>
  returns, and for the country of code \<open>code\<close> the outward query raises \<open>e\<close>, or it
  returns and the inward query raises \<open>e\<close>.
\<close>

definition first_failure ::
    "services \<Rightarrow> pydatetime \<times> pydatetime \<Rightarrow> (string \<times> string) list \<Rightarrow> string \<Rightarrow> exn \<Rightarrow> bool" where
  "first_failure env r before code e =
     ((\<forall>(c, cc) \<in> set before.
         \<not> isl (query_crossborder_flows env uk_country_code cc (fst r) (snd r)) \<and>
         \<not> isl (query_crossborder_flows env cc uk_country_code (fst r) (snd r))) \<and>
      (query_crossborder_flows env uk_country_code code (fst r) (snd r) = Inl e \<or>
       \<not> isl (query_crossborder_flows env uk_country_code code (fst r) (snd r)) \<and>
       query_crossborder_flows env code uk_country_code (fst r) (snd r) = Inl e))"

lemma get_net_flow_returns:
  assumes "\<not> isl (query_crossborder_flows env uk_country_code cc (fst r) (snd r))"
    and "\<not> isl (query_crossborder_flows env cc uk_country_code (fst r) (snd r))"
  shows "\<not> isl (get_net_flow env r cc)"
  using assms by (auto simp: get_net_flow_def split: sum.splits)

lemma get_net_flow_raises:
  assumes "query_crossborder_flows env uk_country_code code (fst r) (snd r) = Inl e \<or>
       \<not> isl (query_crossborder_flows env uk_country_code code (fst r) (snd r)) \<and>
       query_crossborder_flows env code uk_country_code (fst r) (snd r) = Inl e"
  shows "get_net_flow env r code = Inl (reraise e)"
  using assms by (auto simp: get_net_flow_def split: sum.splits)


lemma collect_flows_first_failure:
  assumes "first_failure env r before code e"
  shows "collect_flows env r (before @ (country, code) # after) = Inl (reraise e)"
  using assms
proof (induction before)
  case Nil
  then show ?case by (simp add: first_failure_def get_net_flow_raises)
next
  case (Cons a before)
  obtain c cc where a: "a = (c, cc)" by (cases a)
  from Cons.prems have "\<not> isl (get_net_flow env r cc)"
    by (intro get_net_flow_returns) (simp_all add: first_failure_def a)
  then obtain flow where flow: "get_net_flow env r cc = Inr flow"
    by (cases "get_net_flow env r cc") simp_all
  from Cons.prems have "first_failure env r before code e"
    by (simp add: first_failure_def)
  from Cons.IH [OF this] flow show ?case by (simp add: a)
qed


lemma ingest_run_query_failure:
  assumes "get_date_range clk 0 = Inr r0" and "get_date_range clk 2 = Inr r"
    and "country_code_non_uk_dict = before @ (country, code) # after"
    and "first_failure env r before code e"
  shows "ingest_run env clk tbl = Inl (reraise e)"
  using assms(1,2) collect_flows_first_failure [OF assms(4), of country after]
  by (simp add: ingest_run_def get_all_interconnector_flows_def assms(3))



subsection \<open>Concrete runs\<close>

definition range_1000 :: "pydatetime \<times> pydatetime" where
  "range_1000 =
     (\<lparr>year = 2024, month = 1, day = 1, hour = 10, minute = 0, second = 0, microsecond = 0\<rparr>,
      \<lparr>year = 2024, month = 1, day = 2, hour = 12, minute = 0, second = 0, microsecond = 0\<rparr>)"

lemma get_date_range_1000: "get_date_range (\<lambda>k. now_1000) k = Inr range_1000"
  unfolding get_date_range_def by code_simp

text \<open>An API that refuses every query with status 403, and one that answers 503.\<close>

definition api_refusing :: "string \<Rightarrow> int \<Rightarrow> services" where
  "api_refusing msg status =
     \<lparr>query_crossborder_flows = (\<lambda>country_code_from country_code_to start end. Inl (HTTPError msg (Some status))),
      series_sub = (\<lambda>a b. a),
      concat_ffill = (\<lambda>columns. [])\<rparr>"

text \<open>
  An API that answers every query but the inward one for Belgium, the sixth of the run.
\<close>

definition api_failing_late :: services where
  "api_failing_late =
     \<lparr>query_crossborder_flows =
        (\<lambda>country_code_from country_code_to start end.
           if country_code_from = ''10YBE----------2''
           then Inl (OtherError ''ConnectionError'')
           else Inr [(start, Finite 100)]),
      series_sub = (\<lambda>a b. a),
      concat_ffill = (\<lambda>columns. [])\<rparr>"

definition table_1 :: table where
  "table_1 = Map.empty((20240101101500, 20240101) \<mapsto>
     \<lparr>datetime = 20240101101500, date = 20240101, flows = [(''France'', 100)]\<rparr>)"





section \<open>What the two handlers catch\<close>

definition failing_store :: store_reader where
  "failing_store keys = Inl (OtherError ''ClientError'')"

lemma get_todays_data_failing_store:
  "get_todays_data_from_db (\<lambda>k. now_1000) failing_store =
     Inl (Exception ''Error fetching data from DynamoDB: ClientError'')"
  by (simp add: get_todays_data_from_db_def get_date_keys_1000 request_keys_1000
      failing_store_def)

lemma ingest_run_api_refusing:
  "ingest_run (api_refusing msg status) (\<lambda>k. now_1000) tbl = Inl (HTTPError msg (Some status))"
  using ingest_run_query_failure [of "\<lambda>k. now_1000" range_1000 range_1000 "[]" "''France''"
      "''10YFR-RTE------C''" "tl country_code_non_uk_dict" "api_refusing msg status"
      "HTTPError msg (Some status)" tbl]
  by (simp add: get_date_range_1000 country_code_non_uk_dict_def first_failure_def
      api_refusing_def)

lemma ingest_run_api_failing_late:
  "ingest_run api_failing_late (\<lambda>k. now_1000) tbl = Inl (OtherError ''ConnectionError'')"
  using ingest_run_query_failure [of "\<lambda>k. now_1000" range_1000 range_1000
      "[(''France'', ''10YFR-RTE------C''), (''Netherlands'', ''10YNL----------L'')]"
      "''Belgium''" "''10YBE----------2''" "[(''Norway'', ''10YNO-0--------C'')]"
      api_failing_late "OtherError ''ConnectionError''" tbl]
  by (simp add: get_date_range_1000 country_code_non_uk_dict_def first_failure_def
      api_failing_late_def uk_country_code_def)

text \<open>
  C1. The handler of the Query Service catches every exception: it always returns a
  response, and the response is 500 with a message that describes the error whenever
  the read path raises. The handler of the ingestion catches HTTP errors only: for an
  HTTP error that carries a response it returns 500, and every other exception raised
  in its body leaves the handler.
\<close>

theorem handlers_catch:
  "(\<exists>resp. query_lambda_handler clk batch_get_item = Inr resp \<and>
      (\<forall>e. get_todays_data_from_db clk batch_get_item = Inl e \<longrightarrow>
         resp = \<lparr>statusCode = 500, headers = Some cors_headers,
                 body = JObject [(''message'',
                          JString (''Error processing request: '' @ exn_str e))]\<rparr>))
   \<and> (\<forall>msg status. ingest_run env clk' tbl = Inl (HTTPError msg (Some status)) \<longrightarrow>
        (\<exists>resp. fst (ingest_lambda_handler env clk' tbl) = Inr resp \<and> statusCode resp = 500))
   \<and> (\<forall>e. ingest_run env clk' tbl = Inl e \<longrightarrow> (\<forall>msg resp. e \<noteq> HTTPError msg resp) \<longrightarrow>
        fst (ingest_lambda_handler env clk' tbl) = Inl e)"
proof (intro conjI allI impI)
  show "\<exists>resp. query_lambda_handler clk batch_get_item = Inr resp \<and>
      (\<forall>e. get_todays_data_from_db clk batch_get_item = Inl e \<longrightarrow>
         resp = \<lparr>statusCode = 500, headers = Some cors_headers,
                 body = JObject [(''message'',
                          JString (''Error processing request: '' @ exn_str e))]\<rparr>)"
    by (cases "get_todays_data_from_db clk batch_get_item")
      (simp_all add: query_lambda_handler_def)
next
  fix msg status
  assume "ingest_run env clk' tbl = Inl (HTTPError msg (Some status))"
  then show "\<exists>resp. fst (ingest_lambda_handler env clk' tbl) = Inr resp \<and> statusCode resp = 500"
    by (simp add: ingest_lambda_handler_def)
next
  fix e
  assume "ingest_run env clk' tbl = Inl e" and "\<forall>msg resp. e \<noteq> HTTPError msg resp"
  then show "fst (ingest_lambda_handler env clk' tbl) = Inl e"
    by (cases e) (simp_all add: ingest_lambda_handler_def)
qed

theorem handlers_catch_witness:
  "get_todays_data_from_db (\<lambda>k. now_1000) failing_store =
     Inl (Exception ''Error fetching data from DynamoDB: ClientError'')
   \<and> query_lambda_handler (\<lambda>k. now_1000) failing_store =
       Inr \<lparr>statusCode = 500, headers = Some cors_headers,
            body = JObject [(''message'', JString
              ''Error processing request: Error fetching data from DynamoDB: ClientError'')]\<rparr>
   \<and> ingest_run (api_refusing ''403 Client Error'' 403) (\<lambda>k. now_1000) table_1 =
       Inl (HTTPError ''403 Client Error'' (Some 403))
   \<and> (\<exists>resp. fst (ingest_lambda_handler (api_refusing ''403 Client Error'' 403)
                  (\<lambda>k. now_1000) table_1) = Inr resp \<and> statusCode resp = 500)
   \<and> ingest_run api_failing_late (\<lambda>k. now_1000) table_1 = Inl (OtherError ''ConnectionError'')
   \<and> fst (ingest_lambda_handler api_failing_late (\<lambda>k. now_1000) table_1) =
       Inl (OtherError ''ConnectionError'')"
  using
    handlers_catch [of "\<lambda>k. now_1000" failing_store "api_refusing ''403 Client Error'' 403"
      "\<lambda>k. now_1000" table_1]
    handlers_catch [of "\<lambda>k. now_1000" failing_store api_failing_late
      "\<lambda>k. now_1000" table_1]
  by (simp add: get_todays_data_failing_store ingest_run_api_refusing
      ingest_run_api_failing_late)

text \<open>
  A connection error of the sixth query is no HTTP error: it leaves the handler of the
  ingestion, and no response is returned.
\<close>

theorem connection_error_escapes:
  "fst (ingest_lambda_handler api_failing_late (\<lambda>k. now_1000) table_1) =
     Inl (OtherError ''ConnectionError'')"
  by (simp add: ingest_lambda_handler_def ingest_run_api_failing_late)

end
